theory Spec2Isabelle
  imports Complex_Main
begin

section \<open>The label file: \<^verbatim>\<open>encoding/csv\<close> as \<^verbatim>\<open>readClusterNames\<close> uses it\<close>

text \<open>
  \<^verbatim>\<open>readClusterNames\<close> wraps the opened file in \<^verbatim>\<open>csv.NewReader\<close> and leaves every
  option of the reader at its default: comma \<^verbatim>\<open>','\<close>, no comment character, strict
  quotes, and \<^verbatim>\<open>FieldsPerRecord = 0\<close>, so that the first record fixes the number of
  fields every later record must have.

  The reader is modelled on the bytes of the file.  Its line reader turns each
  \<^verbatim>\<open>\r\n\<close> that ends a line into \<^verbatim>\<open>\n\<close> and drops a carriage return that is the last byte
  of the file; \<open>normalizeNL\<close> does both for the whole content.
\<close>

definition LF :: char where "LF = CHR 0x0A"
definition CR :: char where "CR = CHR 0x0D"
definition DQUOTE :: char where "DQUOTE = CHR 0x22"
definition COMMA :: char where "COMMA = CHR '',''"

fun normalizeNL :: "string \<Rightarrow> string" where
  "normalizeNL [] = []"
| "normalizeNL [c] = (if c = CR then [] else [c])"
| "normalizeNL (c # d # cs) =
     (if c = CR \<and> d = LF then LF # normalizeNL cs else c # normalizeNL (d # cs))"

datatype csv_error = ErrBareQuote | ErrQuote | ErrFieldCount

text \<open>One call of \<^verbatim>\<open>Reader.Read\<close> that does not hit the end of the file.\<close>

datatype csv_read = Record "string list" | Failure csv_error

text \<open>
  \<^verbatim>\<open>readRecord\<close> as an automaton over the normalised bytes.  The result is the list of
  what the successive calls of \<^verbatim>\<open>Read\<close> return, up to the end of the file
  (\<^verbatim>\<open>io.EOF\<close>, the end of the list) or up to the first error; the loop of
  \<^verbatim>\<open>readClusterNames\<close> never calls \<^verbatim>\<open>Read\<close> again after an error.
  \<^item> \<open>RecordStart\<close>: between records; empty lines are skipped here.
  \<^item> \<open>FieldStart\<close>: just after a comma; a quote here opens a quoted field.
  \<^item> \<open>Unquoted\<close>: inside a field that did not start with a quote; a quote is
    \<^verbatim>\<open>ErrBareQuote\<close>.
  \<^item> \<open>Quoted\<close>: inside a quoted field, which may run over several lines; the end of
    the file here is \<^verbatim>\<open>ErrQuote\<close>.
  \<^item> \<open>QuoteSeen\<close>: after a quote inside a quoted field: a second quote is a literal
    quote, a comma ends the field, a newline or the end of the file ends the record,
    anything else is \<^verbatim>\<open>ErrQuote\<close>.
\<close>

datatype csv_mode = RecordStart | FieldStart | Unquoted | Quoted | QuoteSeen

fun readRecords :: "csv_mode \<Rightarrow> string \<Rightarrow> string list \<Rightarrow> string \<Rightarrow> csv_read list" where
  "readRecords RecordStart fld flds [] = []"
| "readRecords RecordStart fld flds (c # cs) =
     (if c = LF then readRecords RecordStart [] [] cs
      else if c = DQUOTE then readRecords Quoted [] [] cs
      else if c = COMMA then readRecords FieldStart [] [[]] cs
      else readRecords Unquoted [c] [] cs)"
| "readRecords FieldStart fld flds [] = [Record (flds @ [[]])]"
| "readRecords FieldStart fld flds (c # cs) =
     (if c = LF then Record (flds @ [[]]) # readRecords RecordStart [] [] cs
      else if c = DQUOTE then readRecords Quoted [] flds cs
      else if c = COMMA then readRecords FieldStart [] (flds @ [[]]) cs
      else readRecords Unquoted [c] flds cs)"
| "readRecords Unquoted fld flds [] = [Record (flds @ [fld])]"
| "readRecords Unquoted fld flds (c # cs) =
     (if c = LF then Record (flds @ [fld]) # readRecords RecordStart [] [] cs
      else if c = COMMA then readRecords FieldStart [] (flds @ [fld]) cs
      else if c = DQUOTE then [Failure ErrBareQuote]
      else readRecords Unquoted (fld @ [c]) flds cs)"
| "readRecords Quoted fld flds [] = [Failure ErrQuote]"
| "readRecords Quoted fld flds (c # cs) =
     (if c = DQUOTE then readRecords QuoteSeen fld flds cs
      else readRecords Quoted (fld @ [c]) flds cs)"
| "readRecords QuoteSeen fld flds [] = [Record (flds @ [fld])]"
| "readRecords QuoteSeen fld flds (c # cs) =
     (if c = DQUOTE then readRecords Quoted (fld @ [DQUOTE]) flds cs
      else if c = COMMA then readRecords FieldStart [] (flds @ [fld]) cs
      else if c = LF then Record (flds @ [fld]) # readRecords RecordStart [] [] cs
      else [Failure ErrQuote])"

text \<open>
  The check at the end of \<^verbatim>\<open>readRecord\<close>: with \<^verbatim>\<open>FieldsPerRecord > 0\<close> a record of
  another length is \<^verbatim>\<open>ErrFieldCount\<close>; with \<^verbatim>\<open>FieldsPerRecord = 0\<close> the record sets
  it.  A record has at least one field, so \<open>0\<close> only stands before the first record.
\<close>

fun fieldsPerRecord :: "nat \<Rightarrow> csv_read list \<Rightarrow> csv_read list" where
  "fieldsPerRecord n [] = []"
| "fieldsPerRecord n (Failure e # rs) = [Failure e]"
| "fieldsPerRecord n (Record r # rs) =
     (if 0 < n then
        (if length r \<noteq> n then [Failure ErrFieldCount]
         else Record r # fieldsPerRecord n rs)
      else Record r # fieldsPerRecord (length r) rs)"

definition csv_Reader :: "string \<Rightarrow> csv_read list" where
  "csv_Reader content = fieldsPerRecord 0 (readRecords RecordStart [] [] (normalizeNL content))"

subsection \<open>\<^verbatim>\<open>readClusterNames\<close>\<close>

text \<open>
  The Go map \<^verbatim>\<open>map[string]string\<close> is a partial function.  The loop of
  \<^verbatim>\<open>readClusterNames\<close>: \<^verbatim>\<open>io.EOF\<close> ends it, any other error is returned, a record of
  fewer than two fields is passed over, and otherwise
  \<^verbatim>\<open>clusterMap[record[1]] = record[0]\<close>.
\<close>

type_synonym clusterMap = "string \<rightharpoonup> string"

fun readLoop :: "clusterMap \<Rightarrow> csv_read list \<Rightarrow> csv_error + clusterMap" where
  "readLoop m [] = Inr m"
| "readLoop m (Failure e # rs) = Inl e"
| "readLoop m (Record r # rs) =
     (if length r < 2 then readLoop m rs
      else readLoop (m(r ! 1 \<mapsto> r ! 0)) rs)"

text \<open>
  The file system is a partial function from paths to contents: \<open>None\<close> is a file
  that \<^verbatim>\<open>os.Open\<close> cannot open.  What the function does to the file is returned beside
  its result: the file is opened, read by the loop, and closed by the deferred
  \<^verbatim>\<open>file.Close()\<close> on either way out.
\<close>

datatype load_error = OpenError | CsvError csv_error

datatype file_event = Open string | ReadRecords string | Close string

definition readClusterNames ::
    "(string \<rightharpoonup> string) \<Rightarrow> string \<Rightarrow> file_event list \<times> (load_error + clusterMap)" where
  "readClusterNames files filePath =
     (case files filePath of
        None \<Rightarrow> ([Open filePath], Inl OpenError)
      | Some content \<Rightarrow>
          ([Open filePath, ReadRecords filePath, Close filePath],
           (case readLoop Map.empty (csv_Reader content) of
              Inl e \<Rightarrow> Inl (CsvError e)
            | Inr m \<Rightarrow> Inr m)))"

text \<open>Indexing a Go map: the zero value, the empty string, for a key that is absent.\<close>

definition index_map :: "clusterMap \<Rightarrow> string \<Rightarrow> string" where
  "index_map m k = (case m k of None \<Rightarrow> [] | Some v \<Rightarrow> v)"

section \<open>The time window: \<^verbatim>\<open>parseDateTime\<close>\<close>

text \<open>
  \<^verbatim>\<open>parseDateTime\<close> calls \<^verbatim>\<open>time.LoadLocation("Local")\<close>, which returns \<^verbatim>\<open>time.Local\<close> and
  no error, then \<^verbatim>\<open>time.ParseInLocation\<close> with the layout \<^verbatim>\<open>"2006-01-02 15:04:05"\<close>, and
  returns \<^verbatim>\<open>t.Unix()\<close>.  The layout has the chunks \<^verbatim>\<open>2006\<close>, \<^verbatim>\<open>01\<close>, \<^verbatim>\<open>02\<close>, \<^verbatim>\<open>15\<close>,
  \<^verbatim>\<open>04\<close>, \<^verbatim>\<open>05\<close> with the literals \<^verbatim>\<open>-\<close>, \<^verbatim>\<open>-\<close>, a space, \<^verbatim>\<open>:\<close> and \<^verbatim>\<open>:\<close> before them.
  The functions below are those of package \<^verbatim>\<open>time\<close> that \<^verbatim>\<open>Parse\<close> runs for this layout;
  every error of \<^verbatim>\<open>Parse\<close> (a bad field, a field out of range, extra text) is the one
  \<^verbatim>\<open>*time.ParseError\<close>, here \<open>None\<close>.
\<close>

definition isDigit :: "char \<Rightarrow> bool" where
  "isDigit c = (48 \<le> (of_char c :: nat) \<and> (of_char c :: nat) \<le> 57)"

definition digitVal :: "char \<Rightarrow> int" where
  "digitVal c = int (of_char c) - 48"

text \<open>The number that a run of decimal digits spells.\<close>

definition digitsValue :: "string \<Rightarrow> int" where
  "digitsValue ds = foldl (\<lambda>a c. a * 10 + digitVal c) 0 ds"

definition SPACE :: char where "SPACE = CHR 0x20"

definition cutspace :: "string \<Rightarrow> string" where
  "cutspace s = dropWhile (\<lambda>c. c = SPACE) s"

text \<open>
  \<^verbatim>\<open>skip(value, prefix)\<close>: a space of the layout stands for a run of spaces of the
  value (and needs one, unless the value has ended); any other byte stands for itself.
\<close>

function skip :: "string \<Rightarrow> string \<Rightarrow> string option" where
  "skip v [] = Some v"
| "skip v (p # ps) =
     (if p = SPACE then
        (if v \<noteq> [] \<and> hd v \<noteq> SPACE then None
         else skip (cutspace v) (cutspace ps))
      else if v = [] \<or> hd v \<noteq> p then None
      else skip (tl v) ps)"
  by pat_completeness auto
termination
  by (relation "measure (\<lambda>(v, p). length p)")
    (auto simp: cutspace_def length_dropWhile_le le_imp_less_Suc)

text \<open>\<^verbatim>\<open>getnum(s, fixed)\<close>: one or two digits, exactly two when \<open>fixed\<close>.\<close>

definition getnum :: "string \<Rightarrow> bool \<Rightarrow> (int \<times> string) option" where
  "getnum s fixed =
     (case s of
        [] \<Rightarrow> None
      | c # r \<Rightarrow>
          if \<not> isDigit c then None
          else (case r of
                  [] \<Rightarrow> if fixed then None else Some (digitVal c, r)
                | d # r' \<Rightarrow>
                    if \<not> isDigit d then (if fixed then None else Some (digitVal c, r))
                    else Some (digitVal c * 10 + digitVal d, r')))"

text \<open>
  The chunk \<^verbatim>\<open>2006\<close> (\<^verbatim>\<open>stdLongYear\<close>): the next four bytes, the first of them a
  digit, read by \<^verbatim>\<open>atoi\<close>, which wants digits only after an optional sign.
\<close>

definition stdLongYear :: "string \<Rightarrow> (int \<times> string) option" where
  "stdLongYear v =
     (if length v < 4 \<or> \<not> isDigit (v ! 0) then None
      else if \<not> list_all isDigit (take 4 v) then None
      else Some (digitsValue (take 4 v), drop 4 v))"

text \<open>
  After the chunk \<^verbatim>\<open>05\<close>, when the layout has no fractional second, \<^verbatim>\<open>Parse\<close> still
  takes one from the value: a period or a comma and the digits after it.  The
  nanoseconds do not reach \<^verbatim>\<open>t.Unix()\<close>.
\<close>

definition commaOrPeriod :: "char \<Rightarrow> bool" where
  "commaOrPeriod c = (c = CHR ''.'' \<or> c = CHR '','')"

definition fractionalSecond :: "string \<Rightarrow> string" where
  "fractionalSecond v =
     (if 2 \<le> length v \<and> commaOrPeriod (v ! 0) \<and> isDigit (v ! 1)
      then dropWhile isDigit (drop 2 v) else v)"

definition isLeap :: "int \<Rightarrow> bool" where
  "isLeap year = (year mod 4 = 0 \<and> (year mod 100 \<noteq> 0 \<or> year mod 400 = 0))"

definition daysIn :: "int \<Rightarrow> int \<Rightarrow> int" where
  "daysIn m year =
     (if m = 2 then (if isLeap year then 29 else 28)
      else if m = 4 \<or> m = 6 \<or> m = 9 \<or> m = 11 then 30 else 31)"

record civil =
  year :: int
  month :: int
  day :: int
  hour :: int
  minute :: int
  second :: int

definition guard :: "bool \<Rightarrow> unit option" where
  "guard b = (if b then Some () else None)"

definition parseLayout :: "string \<Rightarrow> civil option" where
  "parseLayout v0 =
     Option.bind (stdLongYear v0) (\<lambda>(y, v1).
     Option.bind (skip v1 ''-'') (\<lambda>v2.
     Option.bind (getnum v2 True) (\<lambda>(mo, v3).
     Option.bind (guard (\<not> (mo \<le> 0 \<or> 12 < mo))) (\<lambda>_.
     Option.bind (skip v3 ''-'') (\<lambda>v4.
     Option.bind (getnum v4 True) (\<lambda>(d, v5).
     Option.bind (skip v5 [SPACE]) (\<lambda>v6.
     Option.bind (getnum v6 False) (\<lambda>(h, v7).
     Option.bind (guard (\<not> (h < 0 \<or> 24 \<le> h))) (\<lambda>_.
     Option.bind (skip v7 '':'') (\<lambda>v8.
     Option.bind (getnum v8 True) (\<lambda>(mi, v9).
     Option.bind (guard (\<not> (mi < 0 \<or> 60 \<le> mi))) (\<lambda>_.
     Option.bind (skip v9 '':'') (\<lambda>v10.
     Option.bind (getnum v10 True) (\<lambda>(s, v11).
     Option.bind (guard (\<not> (s < 0 \<or> 60 \<le> s))) (\<lambda>_.
     Option.bind (guard (fractionalSecond v11 = [])) (\<lambda>_.
     Option.bind (guard (\<not> (d < 1 \<or> daysIn mo y < d))) (\<lambda>_.
       Some \<lparr>year = y, month = mo, day = d, hour = h, minute = mi, second = s\<rparr>
     )))))))))))))))))"

subsection \<open>The calendar\<close>

text \<open>
  \<^verbatim>\<open>time.Date\<close> counts the days of the proleptic Gregorian calendar.
  \<open>daysBeforeYear y\<close> is the number of days from 1 January of year 1 to 1 January of
  year \<open>y\<close>; 1 January 1970 is day 719162.
\<close>

definition daysBeforeYear :: "int \<Rightarrow> int" where
  "daysBeforeYear y =
     365 * (y - 1) + (y - 1) div 4 - (y - 1) div 100 + (y - 1) div 400"

definition daysBefore :: "int \<Rightarrow> int" where
  "daysBefore m =
     (if m \<le> 1 then 0 else if m = 2 then 31 else if m = 3 then 59 else if m = 4 then 90
      else if m = 5 then 120 else if m = 6 then 151 else if m = 7 then 181
      else if m = 8 then 212 else if m = 9 then 243 else if m = 10 then 273
      else if m = 11 then 304 else 334)"

definition yearDay :: "int \<Rightarrow> int \<Rightarrow> int \<Rightarrow> int" where
  "yearDay y m d = daysBefore m + (if isLeap y \<and> 3 \<le> m then 1 else 0) + (d - 1)"

definition daysSinceEpoch :: "int \<Rightarrow> int \<Rightarrow> int \<Rightarrow> int" where
  "daysSinceEpoch y m d = daysBeforeYear y + yearDay y m d - 719162"

text \<open>The seconds since the epoch of a wall-clock time read as UTC.\<close>

definition wallSeconds :: "civil \<Rightarrow> int" where
  "wallSeconds t =
     daysSinceEpoch (year t) (month t) (day t) * 86400
       + hour t * 3600 + minute t * 60 + second t"

text \<open>
  The way back, as \<^verbatim>\<open>Time.Date\<close> and \<^verbatim>\<open>Time.Clock\<close> give it: the year whose days hold
  the day number (found from an estimate that is off by one year at most), then the
  month and the day of the month from the day of the year.
\<close>

definition yearOfDay :: "int \<Rightarrow> int" where
  "yearOfDay n =
     (let e = (400 * n) div 146097 + 1 in
      if n < daysBeforeYear e then e - 1
      else if n < daysBeforeYear (e + 1) then e
      else e + 1)"

definition monthOfYearDay :: "int \<Rightarrow> int \<Rightarrow> int" where
  "monthOfYearDay y yd =
     (let l = (if isLeap y then 1 else 0) in
      if yd < 31 then 1 else if yd < 59 + l then 2 else if yd < 90 + l then 3
      else if yd < 120 + l then 4 else if yd < 151 + l then 5 else if yd < 181 + l then 6
      else if yd < 212 + l then 7 else if yd < 243 + l then 8 else if yd < 273 + l then 9
      else if yd < 304 + l then 10 else if yd < 334 + l then 11 else 12)"

definition civilOfSeconds :: "int \<Rightarrow> civil" where
  "civilOfSeconds secs =
     (let n = secs div 86400 + 719162;
          sod = secs mod 86400;
          y = yearOfDay n;
          yd = n - daysBeforeYear y;
          m = monthOfYearDay y yd
      in \<lparr>year = y, month = m, day = yd - yearDay y m 1 + 1,
          hour = sod div 3600, minute = (sod mod 3600) div 60, second = sod mod 60\<rparr>)"

subsection \<open>The local time zone\<close>

text \<open>
  \<^verbatim>\<open>time.Local\<close> is the zone of the machine: the offset (seconds east of UTC) in force
  before the first transition, and the transitions in ascending order, each with the
  instant (seconds since the epoch, UTC) at which it starts and the offset from then
  on.  \<open>lookup\<close> returns the offset in force at an instant and the bounds of the period
  of that offset, as \<^verbatim>\<open>Location.lookup\<close> does; \<open>alpha\<close> and \<open>omega\<close> are its bounds of
  time.
\<close>

record location =
  firstOffset :: int
  transitions :: "(int \<times> int) list"

definition alpha :: int where "alpha = - (2 ^ 63)"
definition omega :: int where "omega = 2 ^ 63 - 1"

fun lookupTx :: "int \<Rightarrow> int \<Rightarrow> (int \<times> int) list \<Rightarrow> int \<Rightarrow> int \<times> int \<times> int" where
  "lookupTx off start [] sec = (off, start, omega)"
| "lookupTx off start ((w, off') # txs) sec =
     (if sec < w then (off, start, w) else lookupTx off' w txs sec)"

definition lookup :: "location \<Rightarrow> int \<Rightarrow> int \<times> int \<times> int" where
  "lookup l sec = lookupTx (firstOffset l) alpha (transitions l) sec"

text \<open>
  \<^verbatim>\<open>time.Date\<close> in a location: the offset is looked up at the wall-clock seconds read as
  UTC, and looked up again at the corrected instant when that falls outside the
  period found.
\<close>

definition unixOfWall :: "location \<Rightarrow> int \<Rightarrow> int" where
  "unixOfWall l unix =
     (case lookup l unix of (offset, start, end') \<Rightarrow>
        if offset \<noteq> 0 then
          (let utc = unix - offset;
               offset' = (if utc < start \<or> end' \<le> utc then fst (lookup l utc) else offset)
           in unix - offset')
        else unix)"

definition parseDateTime :: "location \<Rightarrow> string \<Rightarrow> int option" where
  "parseDateTime l dateTimeStr =
     (case parseLayout dateTimeStr of
        None \<Rightarrow> None
      | Some t \<Rightarrow> Some (unixOfWall l (wallSeconds t)))"

text \<open>The wall clock of an instant in a location (\<^verbatim>\<open>time.Unix(sec, 0).In(l)\<close>).\<close>

definition wallClock :: "location \<Rightarrow> int \<Rightarrow> civil" where
  "wallClock l sec = civilOfSeconds (sec + fst (lookup l sec))"

section \<open>The rank list: \<^verbatim>\<open>fetchProverRankList\<close>\<close>

subsection \<open>JSON values and \<^verbatim>\<open>json.Number\<close>\<close>

text \<open>
  The response body is modelled after the scanner of \<^verbatim>\<open>encoding/json\<close>: either bytes
  that are not a JSON text, or the JSON value they spell.  A number keeps its literal
  (\<^verbatim>\<open>json.Number\<close> stores the literal), a string is its content after unquoting, and an
  object keeps its members in the order of the text, duplicates included.
\<close>

datatype json =
    JNull
  | JBool bool
  | JNumber string
  | JString string
  | JArray "json list"
  | JObject "(string \<times> json) list"

datatype body_text = Malformed | Wellformed json

text \<open>
  \<^verbatim>\<open>isValidNumber\<close>, the grammar of JSON numbers: an optional minus, \<^verbatim>\<open>0\<close> or a digit
  from 1 to 9 and more digits, an optional period with one digit or more, an optional
  \<^verbatim>\<open>e\<close> or \<^verbatim>\<open>E\<close> with an optional sign and one digit or more.
\<close>

definition skipDigits :: "string \<Rightarrow> string" where
  "skipDigits s = dropWhile isDigit s"

definition validExponent :: "string \<Rightarrow> bool" where
  "validExponent s =
     (if 2 \<le> length s \<and> (s ! 0 = CHR ''e'' \<or> s ! 0 = CHR ''E'') then
        (let s1 = tl s in
         if hd s1 = CHR ''+'' \<or> hd s1 = CHR ''-'' then
           (if tl s1 = [] then False else skipDigits (tl s1) = [])
         else skipDigits s1 = [])
      else s = [])"

definition validFraction :: "string \<Rightarrow> bool" where
  "validFraction s =
     (if 2 \<le> length s \<and> s ! 0 = CHR ''.'' \<and> isDigit (s ! 1)
      then validExponent (skipDigits (drop 2 s))
      else validExponent s)"

definition isValidNumber :: "string \<Rightarrow> bool" where
  "isValidNumber s =
     (if s = [] then False
      else let s1 = (if hd s = CHR ''-'' then tl s else s) in
        if s1 = [] then False
        else if hd s1 = CHR ''0'' then validFraction (tl s1)
        else if isDigit (hd s1) then validFraction (skipDigits (tl s1))
        else False)"

text \<open>A JSON text is valid when every number literal in it is one.\<close>

fun validJSON :: "json \<Rightarrow> bool" where
  "validJSON JNull = True"
| "validJSON (JBool b) = True"
| "validJSON (JNumber lit) = isValidNumber lit"
| "validJSON (JString s) = True"
| "validJSON (JArray xs) = list_all validJSON xs"
| "validJSON (JObject kvs) = list_all validJSON (map snd kvs)"

definition checkValid :: "body_text \<Rightarrow> bool" where
  "checkValid body = (case body of Malformed \<Rightarrow> False | Wellformed j \<Rightarrow> validJSON j)"

subsection \<open>The record and its decoding\<close>

record Prover =
  Address :: string
  TotalPuzzleCredits :: string
  TotalPuzzleCreditsPercentage :: string
  DailyPuzzleCredits :: string
  DailyPuzzleCreditsPercentage :: string
  NetworkSpeed :: string
  NetworkSpeedPercentage :: string

definition zeroProver :: Prover where
  "zeroProver =
     \<lparr>Address = [], TotalPuzzleCredits = [], TotalPuzzleCreditsPercentage = [],
      DailyPuzzleCredits = [], DailyPuzzleCreditsPercentage = [],
      NetworkSpeed = [], NetworkSpeedPercentage = []\<rparr>"

text \<open>
  \<^verbatim>\<open>Unmarshal\<close> matches the key of an object member with the name of a field, exactly or
  under Unicode simple case folding.  \<open>foldName\<close> maps a key to the least member of its
  folding class: an ASCII letter to its capital, and the two letters outside ASCII that
  fold to an ASCII letter, U+017F (long s, bytes \<^verbatim>\<open>C5 BF\<close>) to \<^verbatim>\<open>S\<close> and U+212A (Kelvin
  sign, bytes \<^verbatim>\<open>E2 84 AA\<close>) to \<^verbatim>\<open>K\<close>.  The names of the fields are ASCII and no two of
  them fold to the same name, so the field of a key is the one with the key's folded
  name.
\<close>

definition upperASCII :: "char \<Rightarrow> char" where
  "upperASCII c =
     (case map_of (zip ''abcdefghijklmnopqrstuvwxyz'' ''ABCDEFGHIJKLMNOPQRSTUVWXYZ'') c of
        None \<Rightarrow> c
      | Some u \<Rightarrow> u)"

fun foldName :: "string \<Rightarrow> string" where
  "foldName [] = []"
| "foldName (c # cs) =
     (if c = CHR 0xC5 \<and> cs \<noteq> [] \<and> hd cs = CHR 0xBF then CHR ''S'' # foldName (tl cs)
      else if c = CHR 0xE2 \<and> 2 \<le> length cs \<and> cs ! 0 = CHR 0x84 \<and> cs ! 1 = CHR 0xAA
        then CHR ''K'' # foldName (drop 2 cs)
      else upperASCII c # foldName cs)"

text \<open>
  Storing a JSON value in a field of kind string.  \<open>None\<close> is an error of \<^verbatim>\<open>Unmarshal\<close>
  (\<^verbatim>\<open>UnmarshalTypeError\<close>, or the invalid number literal of a string sent to a
  \<^verbatim>\<open>json.Number\<close>); \<^verbatim>\<open>null\<close> leaves the field as it is.
\<close>

fun storeString :: "json \<Rightarrow> string \<Rightarrow> string option" where
  "storeString JNull old = Some old"
| "storeString (JString s) old = Some s"
| "storeString (JBool b) old = None"
| "storeString (JNumber lit) old = None"
| "storeString (JArray xs) old = None"
| "storeString (JObject kvs) old = None"

fun storeNumber :: "json \<Rightarrow> string \<Rightarrow> string option" where
  "storeNumber JNull old = Some old"
| "storeNumber (JString s) old = (if isValidNumber s then Some s else None)"
| "storeNumber (JNumber lit) old = Some lit"
| "storeNumber (JBool b) old = None"
| "storeNumber (JArray xs) old = None"
| "storeNumber (JObject kvs) old = None"

text \<open>One member of an object sent to a \<^verbatim>\<open>Prover\<close>; an unknown key is passed over.\<close>

definition setField :: "Prover \<Rightarrow> string \<times> json \<Rightarrow> Prover option" where
  "setField p kv =
     (let k = foldName (fst kv); v = snd kv in
      if k = ''ADDRESS'' then
        map_option (\<lambda>s. p\<lparr>Address := s\<rparr>) (storeString v (Address p))
      else if k = ''TOTALPUZZLECREDITS'' then
        map_option (\<lambda>s. p\<lparr>TotalPuzzleCredits := s\<rparr>) (storeNumber v (TotalPuzzleCredits p))
      else if k = ''TOTALPUZZLECREDITSPERCENTAGE'' then
        map_option (\<lambda>s. p\<lparr>TotalPuzzleCreditsPercentage := s\<rparr>)
          (storeString v (TotalPuzzleCreditsPercentage p))
      else if k = ''DAILYPUZZLECREDITS'' then
        map_option (\<lambda>s. p\<lparr>DailyPuzzleCredits := s\<rparr>) (storeNumber v (DailyPuzzleCredits p))
      else if k = ''DAILYPUZZLECREDITSPERCENTAGE'' then
        map_option (\<lambda>s. p\<lparr>DailyPuzzleCreditsPercentage := s\<rparr>)
          (storeString v (DailyPuzzleCreditsPercentage p))
      else if k = ''NETWORKSPEED'' then
        map_option (\<lambda>s. p\<lparr>NetworkSpeed := s\<rparr>) (storeNumber v (NetworkSpeed p))
      else if k = ''NETWORKSPEEDPERCENTAGE'' then
        map_option (\<lambda>s. p\<lparr>NetworkSpeedPercentage := s\<rparr>)
          (storeString v (NetworkSpeedPercentage p))
      else Some p)"

fun setFields :: "Prover \<Rightarrow> (string \<times> json) list \<Rightarrow> Prover option" where
  "setFields p [] = Some p"
| "setFields p (kv # kvs) =
     (case setField p kv of None \<Rightarrow> None | Some p' \<Rightarrow> setFields p' kvs)"

text \<open>
  A JSON value sent to a \<^verbatim>\<open>Prover\<close> that holds \<open>old\<close>: \<^verbatim>\<open>null\<close> changes nothing, an
  object sets the fields its members name, anything else is an error.
\<close>

fun decodeProver :: "Prover \<Rightarrow> json \<Rightarrow> Prover option" where
  "decodeProver old JNull = Some old"
| "decodeProver old (JObject kvs) = setFields old kvs"
| "decodeProver old (JBool b) = None"
| "decodeProver old (JNumber lit) = None"
| "decodeProver old (JString s) = None"
| "decodeProver old (JArray xs) = None"

text \<open>
  A JSON array sent to the slice \<^verbatim>\<open>[]Prover\<close>: element \<open>i\<close> is decoded into what the
  backing array holds at \<open>i\<close> (the zero record where nothing was stored before), and the
  slice is cut to the length of the array.  \<open>backing\<close> is the content of the backing
  array; it is empty until a member \<^verbatim>\<open>data\<close> has been decoded.
\<close>

fun decodeElements :: "Prover list \<Rightarrow> json list \<Rightarrow> Prover list option" where
  "decodeElements backing [] = Some []"
| "decodeElements backing (x # xs) =
     (case decodeProver (case backing of [] \<Rightarrow> zeroProver | b # _ \<Rightarrow> b) x of
        None \<Rightarrow> None
      | Some p \<Rightarrow>
          (case decodeElements (tl backing) xs of
             None \<Rightarrow> None
           | Some ps \<Rightarrow> Some (p # ps)))"

text \<open>
  The envelope \<^verbatim>\<open>struct { Data []Prover `json:"data"` }\<close>.  Its state is the length of
  the slice \<^verbatim>\<open>Data\<close> and the backing array.  \<^verbatim>\<open>null\<close> sets the slice to \<^verbatim>\<open>nil\<close>, an empty
  array sets it to a new empty slice.
\<close>

record envelope =
  dataLen :: nat
  dataBacking :: "Prover list"

definition zeroEnvelope :: envelope where
  "zeroEnvelope = \<lparr>dataLen = 0, dataBacking = []\<rparr>"

definition Data :: "envelope \<Rightarrow> Prover list" where
  "Data env = take (dataLen env) (dataBacking env)"

fun decodeData :: "envelope \<Rightarrow> json \<Rightarrow> envelope option" where
  "decodeData env JNull = Some zeroEnvelope"
| "decodeData env (JArray xs) =
     (if xs = [] then Some zeroEnvelope
      else (case decodeElements (dataBacking env) xs of
              None \<Rightarrow> None
            | Some ps \<Rightarrow>
                Some \<lparr>dataLen = length ps,
                      dataBacking = ps @ drop (length ps) (dataBacking env)\<rparr>))"
| "decodeData env (JBool b) = None"
| "decodeData env (JNumber lit) = None"
| "decodeData env (JString s) = None"
| "decodeData env (JObject kvs) = None"

fun setEnvelope :: "envelope \<Rightarrow> (string \<times> json) list \<Rightarrow> envelope option" where
  "setEnvelope env [] = Some env"
| "setEnvelope env (kv # kvs) =
     (if foldName (fst kv) = ''DATA'' then
        (case decodeData env (snd kv) of
           None \<Rightarrow> None
         | Some env' \<Rightarrow> setEnvelope env' kvs)
      else setEnvelope env kvs)"

fun decodeEnvelope :: "json \<Rightarrow> envelope option" where
  "decodeEnvelope JNull = Some zeroEnvelope"
| "decodeEnvelope (JObject kvs) = setEnvelope zeroEnvelope kvs"
| "decodeEnvelope (JBool b) = None"
| "decodeEnvelope (JNumber lit) = None"
| "decodeEnvelope (JString s) = None"
| "decodeEnvelope (JArray xs) = None"

text \<open>
  \<^verbatim>\<open>json.Unmarshal(body, &data)\<close>: the syntax of the whole body is checked first, then
  the value is decoded.  \<open>None\<close> is a non-nil error.
\<close>

definition Unmarshal :: "body_text \<Rightarrow> envelope option" where
  "Unmarshal body =
     (case body of
        Malformed \<Rightarrow> None
      | Wellformed j \<Rightarrow> if validJSON j then decodeEnvelope j else None)"

subsection \<open>The request\<close>

text \<open>
  \<^verbatim>\<open>strconv.Itoa\<close> and the verb \<^verbatim>\<open>%d\<close>: the decimal digits, with a minus sign for a
  negative number.
\<close>

definition digitChar :: "int \<Rightarrow> char" where
  "digitChar n = ''0123456789'' ! nat n"

function decimalDigits :: "int \<Rightarrow> string" where
  "decimalDigits n =
     (if n < 10 then [digitChar n] else decimalDigits (n div 10) @ [digitChar (n mod 10)])"
  by pat_completeness auto
termination
  by (relation "measure nat") auto

declare decimalDigits.simps [simp del]

definition Itoa :: "int \<Rightarrow> string" where
  "Itoa i = (if i < 0 then CHR ''-'' # decimalDigits (- i) else decimalDigits i)"

definition payload :: "int \<Rightarrow> int \<Rightarrow> string" where
  "payload startTime endTime =
     [CHR ''{'', DQUOTE] @ ''start_time'' @ [DQUOTE] @ '': '' @ Itoa startTime @ '', ''
       @ [DQUOTE] @ ''end_time'' @ [DQUOTE] @ '': '' @ Itoa endTime @ ''}''"

text \<open>
  What the network gives for a \<^verbatim>\<open>POST\<close> of a payload to a URL: \<^verbatim>\<open>http.NewRequest\<close> may
  refuse the URL, \<^verbatim>\<open>client.Do\<close> may fail, and otherwise there is a response with a status
  code and a body, which \<^verbatim>\<open>ioutil.ReadAll\<close> may fail to read.
\<close>

datatype body_read = ReadError | Body body_text

datatype http_outcome = BadRequest | TransportError | Response int body_read

datatype fetch_error =
    NewRequestError
  | NetworkError
  | HTTPStatusError int
  | BodyReadError
  | DecodeError

section \<open>Numbers: \<^verbatim>\<open>float64\<close>\<close>

text \<open>
  A \<^verbatim>\<open>float64\<close> is a rational number that binary64 represents, or an infinity.  (No
  operation of this program makes a NaN; the two zeros are one value here.)
  \<open>round64\<close> is rounding to the nearest \<^verbatim>\<open>float64\<close>, ties to the even significand, the
  rounding of \<^verbatim>\<open>strconv.ParseFloat\<close> and of the division: the significand has 53 bits, the
  exponent of the leading bit is at least -1022 (below that the numbers are subnormal,
  with the unit \<open>2 ^ -1074\<close>), and a result of \<open>2 ^ 1024\<close> or more is an infinity.
\<close>

datatype float64 = Finite rat | PosInf | NegInf

definition pow2 :: "int \<Rightarrow> rat" where
  "pow2 e = (if 0 \<le> e then 2 ^ nat e else 1 / 2 ^ nat (- e))"

function bitLength :: "int \<Rightarrow> int" where
  "bitLength n = (if n \<le> 0 then 0 else 1 + bitLength (n div 2))"
  by pat_completeness auto
termination
  by (relation "measure nat") auto

declare bitLength.simps [simp del]

text \<open>
  \<open>floorLog2 a\<close> is the exponent of the leading bit of \<open>a > 0\<close>: the number of bits of
  the integer part less one when \<open>1 \<le> a\<close>, and otherwise the least \<open>k\<close> with
  \<open>1 / a \<le> 2 ^ k\<close>, negated.
\<close>

definition floorLog2 :: "rat \<Rightarrow> int" where
  "floorLog2 a =
     (if 1 \<le> a then bitLength \<lfloor>a\<rfloor> - 1 else - bitLength (\<lceil>1 / a\<rceil> - 1))"

definition roundHalfEven :: "rat \<Rightarrow> int" where
  "roundHalfEven q =
     (let f = \<lfloor>q\<rfloor>; r = q - of_int f in
      if r < 1 / 2 then f
      else if 1 / 2 < r then f + 1
      else if even f then f else f + 1)"

definition round64 :: "rat \<Rightarrow> float64" where
  "round64 q =
     (if q = 0 then Finite 0
      else
        let a = \<bar>q\<bar>;
            e = max (floorLog2 a) (- 1022);
            ulp = pow2 (e - 52);
            r = of_int (roundHalfEven (a / ulp)) * ulp
        in if pow2 1024 \<le> r then (if 0 < q then PosInf else NegInf)
           else Finite (if 0 < q then r else - r))"

subsection \<open>\<^verbatim>\<open>json.Number.Float64\<close>\<close>

text \<open>
  The value of a JSON number literal: sign, integer digits, fraction digits and
  exponent.
\<close>

definition exponentValue :: "string \<Rightarrow> int" where
  "exponentValue s =
     (case s of
        [] \<Rightarrow> 0
      | c # r \<Rightarrow>
          (case r of
             [] \<Rightarrow> 0
           | g # ds \<Rightarrow>
               if g = CHR ''-'' then - digitsValue ds
               else if g = CHR ''+'' then digitsValue ds
               else digitsValue r))"

definition pow10 :: "int \<Rightarrow> rat" where
  "pow10 e = (if 0 \<le> e then 10 ^ nat e else 1 / 10 ^ nat (- e))"

definition decimalValue :: "string \<Rightarrow> rat" where
  "decimalValue s =
     (let neg = (s \<noteq> [] \<and> hd s = CHR ''-'');
          s1 = (if neg then tl s else s);
          ip = takeWhile isDigit s1;
          s2 = dropWhile isDigit s1;
          fp = (if s2 \<noteq> [] \<and> hd s2 = CHR ''.'' then takeWhile isDigit (tl s2) else []);
          s3 = (if s2 \<noteq> [] \<and> hd s2 = CHR ''.'' then dropWhile isDigit (tl s2) else s2);
          m = of_int (digitsValue (ip @ fp)) * pow10 (exponentValue s3 - int (length fp))
      in if neg then - m else m)"

text \<open>
  \<^verbatim>\<open>Number.Float64\<close> is \<^verbatim>\<open>strconv.ParseFloat(string(n), 64)\<close>.  A \<^verbatim>\<open>json.Number\<close> that
  \<^verbatim>\<open>Unmarshal\<close> has filled holds the empty string (the field was absent or \<^verbatim>\<open>null\<close>) or
  a literal of the JSON grammar, and on these \<^verbatim>\<open>ParseFloat\<close> is modelled: a literal
  gives the nearest \<^verbatim>\<open>float64\<close>, with \<^verbatim>\<open>ErrRange\<close> and an infinity when that is out of
  range; the empty string gives 0 and \<^verbatim>\<open>ErrSyntax\<close>.  (\<^verbatim>\<open>ParseFloat\<close> also reads forms
  outside the JSON grammar, such as hexadecimal literals and \<^verbatim>\<open>Inf\<close>; they cannot reach
  a decoded \<^verbatim>\<open>json.Number\<close>, and the model gives them \<^verbatim>\<open>ErrSyntax\<close> as well.)
\<close>

datatype num_error = ErrSyntax | ErrRange

definition Float64 :: "string \<Rightarrow> float64 \<times> num_error option" where
  "Float64 n =
     (if isValidNumber n then
        (let v = round64 (decimalValue n)
         in (v, if v = PosInf \<or> v = NegInf then Some ErrRange else None))
      else (Finite 0, Some ErrSyntax))"

text \<open>Division of a \<^verbatim>\<open>float64\<close> by a positive constant that is a \<^verbatim>\<open>float64\<close>.\<close>

fun fdiv :: "float64 \<Rightarrow> rat \<Rightarrow> float64" where
  "fdiv (Finite a) c = round64 (a / c)"
| "fdiv PosInf c = PosInf"
| "fdiv NegInf c = NegInf"

text \<open>
  The conversion \<^verbatim>\<open>int(x)\<close> of a \<^verbatim>\<open>float64\<close>, with \<^verbatim>\<open>int\<close> of 64 bits: the fraction is
  discarded (truncation towards zero); when the result does not fit, the language
  leaves the value to the implementation.
\<close>

datatype go_int = Exact int | ImplementationDependent

definition truncation :: "rat \<Rightarrow> int" where
  "truncation q = (if 0 \<le> q then \<lfloor>q\<rfloor> else - \<lfloor>- q\<rfloor>)"

fun toInt :: "float64 \<Rightarrow> go_int" where
  "toInt (Finite q) =
     (if - (2 ^ 63) \<le> truncation q \<and> truncation q < 2 ^ 63 then Exact (truncation q)
      else ImplementationDependent)"
| "toInt PosInf = ImplementationDependent"
| "toInt NegInf = ImplementationDependent"

section \<open>The report\<close>

text \<open>
  A cell of the sheet: a string value (\<^verbatim>\<open>cell.Value = ...\<close>), a string value with the
  header style, a float with a number format (\<^verbatim>\<open>SetFloatWithFormat\<close>), or an integer
  (\<^verbatim>\<open>SetInt\<close>).
\<close>

datatype cell =
    StringCell string
  | HeaderCell string
  | FloatCell float64 string
  | IntCell go_int

type_synonym row = "cell list"
type_synonym sheet = "row list"

definition header :: "string list" where
  "header =
     [[CHR 0xE6, CHR 0x8E, CHR 0x92, CHR 0xE5, CHR 0x90, CHR 0x8D],
      [CHR 0xE6, CHR 0xA0, CHR 0x87, CHR 0xE8, CHR 0xAE, CHR 0xB0],
      [CHR 0xE5, CHR 0x9C, CHR 0xB0, CHR 0xE5, CHR 0x9D, CHR 0x80],
      [CHR 0xE7, CHR 0xB4, CHR 0xAF, CHR 0xE8, CHR 0xAE, CHR 0xA1, CHR 0xE5, CHR 0x87, CHR 0xBA,
       CHR 0xE5, CHR 0x9D, CHR 0x97, CHR 0xE5, CHR 0xA5, CHR 0x96, CHR 0xE5, CHR 0x8A, CHR 0xB1]
        @ ''(Puzzle Credits)'',
      [CHR 0xE5, CHR 0x8D, CHR 0xA0, CHR 0xE5, CHR 0x85, CHR 0xA8, CHR 0xE7, CHR 0xBD, CHR 0x91,
       CHR 0xE6, CHR 0xAF, CHR 0x94, CHR 0xE4, CHR 0xBE, CHR 0x8B],
      [CHR 0xE6, CHR 0x98, CHR 0xA8, CHR 0xE6, CHR 0x97, CHR 0xA5, CHR 0xE5, CHR 0xA5, CHR 0x96,
       CHR 0xE5, CHR 0x8A, CHR 0xB1],
      [CHR 0xE5, CHR 0x8D, CHR 0x95, CHR 0xE6, CHR 0x97, CHR 0xA5, CHR 0xE5, CHR 0xA5, CHR 0x96,
       CHR 0xE5, CHR 0x8A, CHR 0xB1, CHR 0xE5, CHR 0x8D, CHR 0xA0, CHR 0xE6, CHR 0xAF, CHR 0x94],
      [CHR 0xE8, CHR 0x8A, CHR 0x82, CHR 0xE7, CHR 0x82, CHR 0xB9, CHR 0xE9, CHR 0x80, CHR 0x9F,
       CHR 0xE7, CHR 0x8E, CHR 0x87] @ ''(M s/s)'',
      [CHR 0xE9, CHR 0x80, CHR 0x9F, CHR 0xE7, CHR 0x8E, CHR 0x87, CHR 0xE5, CHR 0x8D, CHR 0xA0,
       CHR 0xE6, CHR 0xAF, CHR 0x94],
      ''GPU'' @ [CHR 0xE6, CHR 0x95, CHR 0xB0, CHR 0xE9, CHR 0x87, CHR 0x8F] @ ''/3080'',
      ''GPU'' @ [CHR 0xE6, CHR 0x95, CHR 0xB0, CHR 0xE9, CHR 0x87, CHR 0x8F] @ ''/4090'']"

definition headerRow :: row where
  "headerRow = map HeaderCell header"

text \<open>
  The body of the loop over \<^verbatim>\<open>provers\<close>.  Each \<^verbatim>\<open>Float64()\<close> returns a value and an
  error, and the error goes to the blank identifier.
\<close>

definition dataRow :: "clusterMap \<Rightarrow> nat \<Rightarrow> Prover \<Rightarrow> row" where
  "dataRow clusterNames i prover =
     (case Float64 (TotalPuzzleCredits prover) of (totalPuzzleCredits, _) \<Rightarrow>
      case Float64 (DailyPuzzleCredits prover) of (dailyPuzzleCredits, _) \<Rightarrow>
      case Float64 (NetworkSpeed prover) of (networkSpeed, _) \<Rightarrow>
        [StringCell (Itoa (int i + 1)),
         StringCell (index_map clusterNames (Address prover)),
         StringCell (Address prover),
         FloatCell totalPuzzleCredits ''0.00'',
         StringCell (TotalPuzzleCreditsPercentage prover),
         FloatCell dailyPuzzleCredits ''0.00'',
         StringCell (DailyPuzzleCreditsPercentage prover),
         FloatCell (fdiv networkSpeed 1000000) ''0.00'',
         StringCell (NetworkSpeedPercentage prover),
         IntCell (toInt (fdiv networkSpeed 15000)),
         IntCell (toInt (fdiv networkSpeed 43000))])"

fun dataRows :: "clusterMap \<Rightarrow> nat \<Rightarrow> Prover list \<Rightarrow> sheet" where
  "dataRows clusterNames i [] = []"
| "dataRows clusterNames i (prover # provers) =
     dataRow clusterNames i prover # dataRows clusterNames (Suc i) provers"

subsection \<open>The number format \<^verbatim>\<open>0.00\<close>\<close>

text \<open>
  The program stores a float and the number format \<^verbatim>\<open>0.00\<close>; the text of the cell is
  made by whatever shows the sheet.  \<open>formatted\<close> follows the words of the
  specification, ``formatted to 2 decimal places'': the value rounded to the nearest
  hundredth (a half away from zero), with two digits after the period.
\<close>

definition roundHalfAway :: "rat \<Rightarrow> int" where
  "roundHalfAway q = (if 0 \<le> q then \<lfloor>q + 1 / 2\<rfloor> else - \<lfloor>- q + 1 / 2\<rfloor>)"

definition formatFixed2 :: "rat \<Rightarrow> string" where
  "formatFixed2 q =
     (let n = roundHalfAway (q * 100); a = \<bar>n\<bar> in
      (if n < 0 then ''-'' else []) @ Itoa (a div 100) @ ''.''
        @ [digitChar ((a mod 100) div 10), digitChar (a mod 10)])"

fun formatted :: "cell \<Rightarrow> string option" where
  "formatted (FloatCell (Finite q) fmt) = (if fmt = ''0.00'' then Some (formatFixed2 q) else None)"
| "formatted (FloatCell PosInf fmt) = None"
| "formatted (FloatCell NegInf fmt) = None"
| "formatted (StringCell s) = Some s"
| "formatted (HeaderCell s) = Some s"
| "formatted (IntCell (Exact n)) = Some (Itoa n)"
| "formatted (IntCell ImplementationDependent) = None"

section \<open>The run: the action of \<^verbatim>\<open>main\<close>\<close>

text \<open>
  What the run does to the world outside, in order: lines printed, the request sent,
  the label file opened, read and closed, the spreadsheet saved.
\<close>

datatype event =
    Printed string
  | HttpPost string string
  | LabelFile file_event
  | SaveFile string sheet

definition fetchProverRankList ::
    "(string \<Rightarrow> string \<Rightarrow> http_outcome) \<Rightarrow> string \<Rightarrow> int \<Rightarrow> int
      \<Rightarrow> event list \<times> (fetch_error + Prover list)" where
  "fetchProverRankList net apiURL startTime endTime =
     (let p = payload startTime endTime in
      case net apiURL p of
        BadRequest \<Rightarrow> ([], Inl NewRequestError)
      | TransportError \<Rightarrow> ([HttpPost apiURL p], Inl NetworkError)
      | Response status body \<Rightarrow>
          if status \<noteq> 200 then ([HttpPost apiURL p], Inl (HTTPStatusError status))
          else
            (case body of
               ReadError \<Rightarrow> ([HttpPost apiURL p], Inl BodyReadError)
             | Body text \<Rightarrow>
                 (case Unmarshal text of
                    None \<Rightarrow> ([HttpPost apiURL p], Inl DecodeError)
                  | Some data \<Rightarrow> ([HttpPost apiURL p], Inr (Data data)))))"

text \<open>
  The world of a run: the zone \<^verbatim>\<open>time.Local\<close>, the network, the files that can be
  opened, whether \<^verbatim>\<open>file.Save\<close> of a sheet under a name succeeds, and the clock.
\<close>

record world =
  Local :: location
  network :: "string \<Rightarrow> string \<Rightarrow> http_outcome"
  files :: "string \<rightharpoonup> string"
  saves :: "string \<Rightarrow> sheet \<Rightarrow> bool"
  now :: int

record flags =
  start_datetime :: string
  end_datetime :: string
  cluster_file :: string
  api_url :: string

text \<open>
  \<^verbatim>\<open>time.Now().Format("2006-01-02")\<close>: the year with four digits at least, the month and
  the day with two.
\<close>

definition appendInt :: "int \<Rightarrow> nat \<Rightarrow> string" where
  "appendInt x width =
     (let ds = decimalDigits \<bar>x\<bar> in
      (if x < 0 then ''-'' else []) @ replicate (width - length ds) (CHR ''0'') @ ds)"

definition today :: "world \<Rightarrow> string" where
  "today w =
     (let t = wallClock (Local w) (now w) in
      appendInt (year t) 4 @ ''-'' @ appendInt (month t) 2 @ ''-'' @ appendInt (day t) 2)"

definition outputFileName :: "world \<Rightarrow> string" where
  "outputFileName w =
     ''aleo'' @ [CHR 0xE5, CHR 0xA4, CHR 0xA7, CHR 0xE7, CHR 0x9F, CHR 0xBF, CHR 0xE5, CHR 0xB7,
       CHR 0xA5, CHR 0xE7, CHR 0xBB, CHR 0x9F, CHR 0xE8, CHR 0xAE, CHR 0xA1] @ ''-''
       @ today w @ ''.xlsx''"

definition savedMessage :: "string \<Rightarrow> string" where
  "savedMessage name =
     [CHR 0xE6, CHR 0x95, CHR 0xB0, CHR 0xE6, CHR 0x8D, CHR 0xAE, CHR 0xE5, CHR 0xB7, CHR 0xB2,
      CHR 0xE4, CHR 0xBF, CHR 0x9D, CHR 0xE5, CHR 0xAD, CHR 0x98, CHR 0xE5, CHR 0x88, CHR 0xB0]
       @ '' '' @ name @ [LF]"

datatype run_error =
    StartTimeError
  | EndTimeError
  | FetchError fetch_error
  | ClusterNamesError load_error
  | SaveError

text \<open>
  The action: the two dates, the two lines printed, the fetch, the label file, the
  sheet (\<^verbatim>\<open>AddSheet\<close> of the first sheet of a new file does not fail), the save.  The
  result is the trace and the error returned, \<open>None\<close> for \<^verbatim>\<open>nil\<close>.
\<close>

definition action :: "world \<Rightarrow> flags \<Rightarrow> event list \<times> run_error option" where
  "action w c =
     (case parseDateTime (Local w) (start_datetime c) of
        None \<Rightarrow> ([], Some StartTimeError)
      | Some startTime \<Rightarrow>
     (case parseDateTime (Local w) (end_datetime c) of
        None \<Rightarrow> ([], Some EndTimeError)
      | Some endTime \<Rightarrow>
          let printed = [Printed (''Start timestamp: '' @ Itoa startTime @ [LF]),
                         Printed (''End timestamp: '' @ Itoa endTime @ [LF])]
          in
          (case fetchProverRankList (network w) (api_url c) startTime endTime of
             (sent, Inl e) \<Rightarrow> (printed @ sent, Some (FetchError e))
           | (sent, Inr provers) \<Rightarrow>
               (case readClusterNames (files w) (cluster_file c) of
                  (loaded, Inl e) \<Rightarrow>
                    (printed @ sent @ map LabelFile loaded, Some (ClusterNamesError e))
                | (loaded, Inr clusterNames) \<Rightarrow>
                    let sheet = headerRow # dataRows clusterNames 0 provers;
                        name = outputFileName w
                    in
                    if saves w name sheet
                    then (printed @ sent @ map LabelFile loaded
                            @ [SaveFile name sheet, Printed (savedMessage name)], None)
                    else (printed @ sent @ map LabelFile loaded @ [SaveFile name sheet],
                          Some SaveError)))))"

section \<open>Notions the properties are stated with\<close>

text \<open>The kinds of events of a trace.\<close>

fun isLabelEvent :: "event \<Rightarrow> bool" where
  "isLabelEvent (LabelFile ev) = True"
| "isLabelEvent (Printed s) = False"
| "isLabelEvent (HttpPost u p) = False"
| "isLabelEvent (SaveFile n s) = False"

fun isSaveFile :: "event \<Rightarrow> bool" where
  "isSaveFile (SaveFile n s) = True"
| "isSaveFile (Printed s) = False"
| "isSaveFile (HttpPost u p) = False"
| "isSaveFile (LabelFile ev) = False"

text \<open>
  The quotient of two integers truncated towards zero (the \<^verbatim>\<open>/\<close> of Go on integers),
  against which the hardware counts are compared.
\<close>

definition quo :: "int \<Rightarrow> int \<Rightarrow> int" where
  "quo a b = sgn a * sgn b * (\<bar>a\<bar> div \<bar>b\<bar>)"

subsection \<open>An example run\<close>

text \<open>
  A machine on UTC, a service that answers every request with status 200 and one
  record whose numbers are JSON strings, a label file of two rows, and a disk that
  takes the spreadsheet.
\<close>

definition UTC :: location where
  "UTC = \<lparr>firstOffset = 0, transitions = []\<rparr>"

definition exampleBody :: json where
  "exampleBody =
     JObject [(''data'', JArray [JObject
       [(''Address'', JString ''addr1''),
        (''TotalPuzzleCredits'', JString ''100.5''),
        (''TotalPuzzleCreditsPercentage'', JString ''12.5%''),
        (''DailyPuzzleCredits'', JString ''7.25''),
        (''DailyPuzzleCreditsPercentage'', JString ''3.1%''),
        (''NetworkSpeed'', JString ''30000''),
        (''NetworkSpeedPercentage'', JString ''0.2%'')]])]"

definition exampleProver :: Prover where
  "exampleProver =
     \<lparr>Address = ''addr1'', TotalPuzzleCredits = ''100.5'',
      TotalPuzzleCreditsPercentage = ''12.5%'', DailyPuzzleCredits = ''7.25'',
      DailyPuzzleCreditsPercentage = ''3.1%'', NetworkSpeed = ''30000'',
      NetworkSpeedPercentage = ''0.2%''\<rparr>"

definition exampleLabels :: string where
  "exampleLabels = ''Alice,addr1'' @ [LF] @ ''Bob,addr2'' @ [LF]"

definition exampleWorld :: world where
  "exampleWorld =
     \<lparr>Local = UTC,
      network = (\<lambda>url p. Response 200 (Body (Wellformed exampleBody))),
      files = [''labels.csv'' \<mapsto> exampleLabels],
      saves = (\<lambda>name sh. True),
      now = 1700000000\<rparr>"

definition exampleFlags :: flags where
  "exampleFlags =
     \<lparr>start_datetime = ''2023-01-01 00:00:00'', end_datetime = ''2023-01-02 00:00:00'',
      cluster_file = ''labels.csv'',
      api_url = ''http://localhost:8088/api/v1/provers/prover_rank_list''\<rparr>"

text \<open>The same machine with a service that answers with status 503.\<close>

definition unavailableWorld :: world where
  "unavailableWorld = exampleWorld\<lparr>network := (\<lambda>url p. Response 503 (Body Malformed))\<rparr>"

text \<open>A label file whose second row has one field only.\<close>

definition shortRowLabels :: string where
  "shortRowLabels = ''Alice,addr1'' @ [LF] @ ''Bob'' @ [LF]"

text \<open>
  A record whose total credits are beyond the range of \<^verbatim>\<open>float64\<close> and whose daily
  credits are absent, and the machine whose service sends it.
\<close>

definition overflowBody :: json where
  "overflowBody =
     JObject [(''data'', JArray [JObject
       [(''Address'', JString ''addr9''),
        (''TotalPuzzleCredits'', JNumber ''1e309''),
        (''NetworkSpeed'', JNumber ''-1'')]])]"

definition overflowProver :: Prover where
  "overflowProver = zeroProver\<lparr>Address := ''addr9'', TotalPuzzleCredits := ''1e309'',
     NetworkSpeed := ''-1''\<rparr>"

definition overflowWorld :: world where
  "overflowWorld =
     exampleWorld\<lparr>network := (\<lambda>url p. Response 200 (Body (Wellformed overflowBody)))\<rparr>"

text \<open>
  Two more records: one whose speed is just below 15000, by less than the spacing of
  the \<^verbatim>\<open>float64\<close> values there, and one whose speed is beyond the range of
  \<^verbatim>\<open>float64\<close>.
\<close>

definition roundedProver :: Prover where
  "roundedProver = zeroProver\<lparr>Address := ''addr7'', NetworkSpeed := ''14999.99999999999999999''\<rparr>"

definition hugeProver :: Prover where
  "hugeProver = zeroProver\<lparr>Address := ''addr8'', NetworkSpeed := ''1e309''\<rparr>"

subsection \<open>The shape of a response\<close>
























subsection \<open>Date and time strings\<close>










lemma bitLength_nonneg: "0 \<le> bitLength n"
proof (induction n rule: bitLength.induct)
  case (1 n)
  then show ?case by (subst bitLength.simps) auto
qed

lemma bitLength_pos: "0 < n \<Longrightarrow> 0 < bitLength n"
  using bitLength_nonneg [of "n div 2"] by (subst bitLength.simps) simp

lemma bitLength_bounds:
  "0 < n \<Longrightarrow> 2 ^ nat (bitLength n - 1) \<le> n \<and> n < 2 ^ nat (bitLength n)"
proof (induction n rule: bitLength.induct)
  case (1 n)
  show ?case
  proof (cases "n = 1")
    case True
    then show ?thesis by (simp add: bitLength.simps[of 1] bitLength.simps[of 0])
  next
    case False
    with 1 have h: "0 < n div 2" by simp
    define b where "b = bitLength (n div 2)"
    have bpos: "0 < b" using h bitLength_pos b_def by simp
    have IH: "2 ^ nat (b - 1) \<le> n div 2 \<and> n div 2 < 2 ^ nat b"
      using 1 h b_def by simp
    have bn: "bitLength n = 1 + b" using 1(2) b_def by (subst bitLength.simps) simp
    have e1: "nat b = Suc (nat (b - 1))" using bpos by simp
    have e2: "nat (1 + b) = Suc (nat b)" using bpos by simp
    have "(2::int) ^ nat b = 2 * 2 ^ nat (b - 1)" by (subst e1) simp
    also have "\<dots> \<le> 2 * (n div 2)" using IH by simp
    also have "\<dots> \<le> n" by simp
    finally have lower: "(2::int) ^ nat b \<le> n" .
    have "n < 2 * (n div 2) + 2" by presburger
    also have "\<dots> \<le> 2 * 2 ^ nat b" using IH by simp
    also have "\<dots> = 2 ^ nat (1 + b)" by (subst e2) simp
    finally have upper: "n < 2 ^ nat (1 + b)" .
    show ?thesis using lower upper bn by simp
  qed
qed

lemma pow2_pos: "0 < pow2 e"
  by (simp add: pow2_def)

lemma pow2_powi: "pow2 e = 2 powi e"
  by (simp add: pow2_def power_int_def power_one_over inverse_eq_divide)

lemma pow2_add: "pow2 (a + b) = pow2 a * pow2 b"
  by (simp add: pow2_powi power_int_add)

lemma pow2_mono: "a \<le> b \<Longrightarrow> pow2 a \<le> pow2 b"
  by (simp add: pow2_powi power_int_increasing)

lemma pow2_strict_mono: "a < b \<Longrightarrow> pow2 a < pow2 b"
  by (simp add: pow2_powi power_int_strict_increasing)

lemma pow2_le_iff: "pow2 a \<le> pow2 b \<longleftrightarrow> a \<le> b"
  by (metis pow2_mono pow2_strict_mono not_le)

lemma pow2_less_iff: "pow2 a < pow2 b \<longleftrightarrow> a < b"
  by (metis pow2_mono pow2_strict_mono not_le)

lemma pow2_nat: "0 \<le> e \<Longrightarrow> pow2 e = of_int (2 ^ nat e)"
  by (simp add: pow2_def)

lemma floorLog2_bounds:
  assumes "0 < a"
  shows "pow2 (floorLog2 a) \<le> a \<and> a < pow2 (floorLog2 a + 1)"
proof (cases "1 \<le> a")
  case True
  define n where "n = \<lfloor>a\<rfloor>"
  have npos: "0 < n" using True n_def by simp
  have fl: "floorLog2 a = bitLength n - 1" using True n_def by (simp add: floorLog2_def)
  have b: "2 ^ nat (bitLength n - 1) \<le> n \<and> n < 2 ^ nat (bitLength n)"
    using bitLength_bounds [OF npos] .
  have bp: "0 < bitLength n" using bitLength_pos npos by simp
  have "pow2 (bitLength n - 1) = of_int (2 ^ nat (bitLength n - 1))"
    using bp by (simp add: pow2_nat)
  also have "\<dots> \<le> of_int n" using b by (simp only: of_int_le_iff)
  also have "\<dots> \<le> a" using n_def by simp
  finally have lo: "pow2 (bitLength n - 1) \<le> a" .
  have "n + 1 \<le> 2 ^ nat (bitLength n)" using b by simp
  then have "(of_int (n + 1) :: rat) \<le> of_int (2 ^ nat (bitLength n))" by (simp only: of_int_le_iff)
  moreover have "a < of_int (n + 1)" using n_def by linarith
  ultimately have "a < of_int (2 ^ nat (bitLength n))" by linarith
  then have hi: "a < pow2 (bitLength n - 1 + 1)" using bp by (simp add: pow2_nat)
  show ?thesis using lo hi fl by simp
next
  case False
  define c where "c = \<lceil>1 / a\<rceil>"
  have inv: "1 < 1 / a" using False assms by simp
  have c2: "2 \<le> c" using inv c_def by linarith
  define k where "k = bitLength (c - 1)"
  have fl: "floorLog2 a = - k" using False c_def k_def by (simp add: floorLog2_def)
  have cpos: "0 < c - 1" using c2 by simp
  have b: "2 ^ nat (k - 1) \<le> c - 1 \<and> c - 1 < 2 ^ nat k"
    using bitLength_bounds [OF cpos] k_def by simp
  have kp: "0 < k" using bitLength_pos cpos k_def by simp
  have "1 / a \<le> of_int c" using c_def by linarith
  also have "(of_int c :: rat) \<le> of_int (2 ^ nat k)" using b by (simp only: of_int_le_iff) simp
  also have "\<dots> = pow2 k" using kp by (simp add: pow2_nat)
  finally have "1 / a \<le> pow2 k" .
  then have "1 \<le> pow2 k * a" using assms by (simp add: field_simps)
  then have lo: "pow2 (- k) \<le> a"
    using pow2_pos [of k] by (simp add: pow2_powi power_int_minus field_simps)
  have "(of_int (2 ^ nat (k - 1)) :: rat) \<le> of_int (c - 1)" using b by (simp only: of_int_le_iff)
  moreover have "(of_int (c - 1) :: rat) < 1 / a" using c_def by linarith
  ultimately have "pow2 (k - 1) < 1 / a" using kp by (simp add: pow2_nat)
  then have "pow2 (k - 1) * a < 1" using assms by (simp add: field_simps)
  moreover have "pow2 (k - 1) * pow2 (- k + 1) = 1"
    using pow2_add [of "k - 1" "- k + 1"] by (simp add: pow2_def)
  ultimately have "pow2 (k - 1) * a < pow2 (k - 1) * pow2 (- k + 1)" by simp
  then have hi: "a < pow2 (- k + 1)"
    using pow2_pos [of "k - 1"] by (simp only: mult_less_cancel_left_pos)
  show ?thesis using lo hi fl by simp
qed

lemma floorLog2_unique:
  assumes "pow2 e \<le> a" "a < pow2 (e + 1)"
  shows "floorLog2 a = e"
proof -
  have apos: "0 < a" using assms(1) pow2_pos [of e] by linarith
  have b: "pow2 (floorLog2 a) \<le> a \<and> a < pow2 (floorLog2 a + 1)"
    using floorLog2_bounds [OF apos] .
  have "pow2 e < pow2 (floorLog2 a + 1)" using assms b by linarith
  then have 1: "e < floorLog2 a + 1" by (simp add: pow2_less_iff)
  have "pow2 (floorLog2 a) < pow2 (e + 1)" using assms b by linarith
  then have 2: "floorLog2 a < e + 1" by (simp add: pow2_less_iff)
  show ?thesis using 1 2 by simp
qed

lemma roundHalfEven_cases:
  "roundHalfEven x = \<lfloor>x\<rfloor> \<or> roundHalfEven x = \<lfloor>x\<rfloor> + 1"
  by (simp add: roundHalfEven_def Let_def)

lemma roundHalfEven_upper: "of_int (roundHalfEven x) \<le> x + 1 / 2"
proof -
  have "of_int \<lfloor>x\<rfloor> \<le> x" by simp
  then show ?thesis
    by (auto simp add: roundHalfEven_def Let_def) linarith+
qed

lemma roundHalfEven_lower: "x - 1 / 2 \<le> of_int (roundHalfEven x)"
proof -
  have "x < of_int \<lfloor>x\<rfloor> + 1" by linarith
  then show ?thesis
    by (auto simp add: roundHalfEven_def Let_def)
qed

lemma roundHalfEven_of_int: "roundHalfEven (of_int k) = k"
  by (simp add: roundHalfEven_def)

lemma roundHalfEven_ge_int: "of_int K \<le> x \<Longrightarrow> K \<le> roundHalfEven x"
proof -
  assume "of_int K \<le> x"
  then have "K \<le> \<lfloor>x\<rfloor>" by (simp add: le_floor_iff)
  then show ?thesis using roundHalfEven_cases [of x] by auto
qed

lemma roundHalfEven_le_int: "x \<le> of_int K \<Longrightarrow> roundHalfEven x \<le> K"
proof (cases "x = of_int K")
  case True
  then show ?thesis by (simp add: roundHalfEven_of_int)
next
  case False
  assume "x \<le> of_int K"
  with False have "x < of_int K" by simp
  then have "\<lfloor>x\<rfloor> < K" by (simp add: floor_less_iff)
  then show ?thesis using roundHalfEven_cases [of x] by auto
qed

lemma round64_normal:
  assumes "pow2 e \<le> \<bar>q\<bar>" "\<bar>q\<bar> < pow2 (e + 1)" "- 1022 \<le> e" "e < 1023"
  shows "round64 q =
    Finite ((if 0 < q then 1 else - 1) * (of_int (roundHalfEven (\<bar>q\<bar> / pow2 (e - 52))) * pow2 (e - 52)))"
proof -
  have q0: "q \<noteq> 0" using assms(1) pow2_pos [of e] by auto
  have fl: "floorLog2 \<bar>q\<bar> = e" using floorLog2_unique assms by simp
  define u where "u = pow2 (e - 52)"
  define m where "m = roundHalfEven (\<bar>q\<bar> / u)"
  have upos: "0 < u" using pow2_pos u_def by simp
  have e53: "e + 1 = 53 + (e - 52)" by simp
  have p53: "pow2 (e + 1) = of_int (2 ^ 53) * u"
    by (subst e53, subst pow2_add) (simp add: u_def pow2_nat)
  then have "\<bar>q\<bar> / u \<le> of_int (2 ^ 53)" using assms(2) upos by (simp add: field_simps)
  then have "m \<le> 2 ^ 53" unfolding m_def by (rule roundHalfEven_le_int)
  then have "(of_int m :: rat) \<le> of_int (2 ^ 53)" by (simp only: of_int_le_iff)
  then have "of_int m * u \<le> of_int (2 ^ 53) * u" using upos by (simp only: mult_le_cancel_right_pos)
  also have "\<dots> = pow2 (e + 1)" using p53 by simp
  also have "\<dots> < pow2 1024" using assms(4) by (simp add: pow2_less_iff)
  finally have small: "\<not> pow2 1024 \<le> of_int m * u" by simp
  have mx: "max e (- 1022) = e" using assms(3) by simp
  show ?thesis
    unfolding round64_def Let_def fl mx u_def [symmetric] m_def [symmetric]
    using q0 small by simp
qed

lemma round64_overflow:
  assumes "pow2 1024 \<le> \<bar>q\<bar>"
  shows "round64 q = (if 0 < q then PosInf else NegInf)"
proof -
  have q0: "q \<noteq> 0" using assms pow2_pos [of 1024] by auto
  define e where "e = floorLog2 \<bar>q\<bar>"
  have apos: "0 < \<bar>q\<bar>" using q0 by simp
  have b: "pow2 e \<le> \<bar>q\<bar> \<and> \<bar>q\<bar> < pow2 (e + 1)"
    using floorLog2_bounds [OF apos] e_def by simp
  have "pow2 1024 < pow2 (e + 1)" using assms b by linarith
  then have e1024: "1024 \<le> e" by (simp add: pow2_less_iff)
  define u where "u = pow2 (e - 52)"
  define m where "m = roundHalfEven (\<bar>q\<bar> / u)"
  have upos: "0 < u" using pow2_pos u_def by simp
  have e52: "e = 52 + (e - 52)" by simp
  have pe: "pow2 e = of_int (2 ^ 52) * u"
    by (subst e52, subst pow2_add) (simp add: u_def pow2_nat)
  then have "of_int (2 ^ 52) \<le> \<bar>q\<bar> / u" using b upos by (simp add: field_simps)
  then have "2 ^ 52 \<le> m" unfolding m_def by (rule roundHalfEven_ge_int)
  then have "(of_int (2 ^ 52) :: rat) \<le> of_int m" by (simp only: of_int_le_iff)
  then have "of_int (2 ^ 52) * u \<le> of_int m * u" using upos by (simp only: mult_le_cancel_right_pos)
  then have "pow2 e \<le> of_int m * u" using pe by simp
  moreover have "pow2 1024 \<le> pow2 e" using e1024 by (simp add: pow2_le_iff)
  ultimately have big: "pow2 1024 \<le> of_int m * u" by linarith
  have mx: "max e (- 1022) = e" using e1024 by simp
  show ?thesis
    unfolding round64_def Let_def e_def [symmetric] mx u_def [symmetric] m_def [symmetric]
    using q0 big by simp
qed

lemma round64_of_int:
  assumes "\<bar>n\<bar> < 2 ^ 53"
  shows "round64 (of_int n) = Finite (of_int n)"
proof (cases "n = 0")
  case True
  then show ?thesis by (simp add: round64_def)
next
  case False
  define a :: rat where "a = \<bar>of_int n\<bar>"
  have a_int: "a = of_int \<bar>n\<bar>" by (simp add: a_def)
  have a1: "1 \<le> a" using False by (simp add: a_int)
  have apos: "0 < a" using a1 by simp
  define e where "e = floorLog2 a"
  have b: "pow2 e \<le> a \<and> a < pow2 (e + 1)" using floorLog2_bounds [OF apos] e_def by simp
  have "pow2 0 < pow2 (e + 1)" using a1 b by (simp add: pow2_def)
  then have e0: "0 \<le> e" by (simp add: pow2_less_iff)
  have "(of_int \<bar>n\<bar> :: rat) < of_int (2 ^ 53)" using assms by (simp only: of_int_less_iff)
  then have "a < pow2 53" by (simp add: a_int pow2_def)
  then have "pow2 e < pow2 53" using b by linarith
  then have e52: "e \<le> 52" by (simp add: pow2_less_iff)
  have u: "pow2 (e - 52) = 1 / of_int (2 ^ nat (52 - e))"
    using e52 by (cases "e = 52") (simp_all add: pow2_def)
  have "a / pow2 (e - 52) = of_int (\<bar>n\<bar> * 2 ^ nat (52 - e))"
    by (simp add: u a_int)
  then have m: "roundHalfEven (a / pow2 (e - 52)) = \<bar>n\<bar> * 2 ^ nat (52 - e)"
    by (simp only: roundHalfEven_of_int)
  have "round64 (of_int n) =
      Finite ((if 0 < (of_int n :: rat) then 1 else - 1)
        * (of_int (roundHalfEven (a / pow2 (e - 52))) * pow2 (e - 52)))"
    unfolding a_def by (rule round64_normal) (use b e0 e52 a_def in auto)
  also have "of_int (roundHalfEven (a / pow2 (e - 52))) * pow2 (e - 52) = a"
    by (simp only: m) (simp add: u a_int)
  finally show ?thesis using False by (auto simp add: a_int)
qed

lemma round64_minus:
  "round64 q = Finite r \<Longrightarrow> round64 (- q) = Finite (- r)"
  by (auto simp add: round64_def Let_def split: if_splits)

lemma round64_div_floor:
  assumes n0: "0 \<le> n" and n53: "n < 2 ^ 53" and c1: "1 \<le> c" and c64: "c \<le> 2 ^ 64"
  shows "\<exists>r. round64 (of_int n / of_int c) = Finite r \<and> 0 \<le> r \<and> \<lfloor>r\<rfloor> = n div c"
proof (cases "n = 0")
  case True
  then show ?thesis by (simp add: round64_def)
next
  case False
  then have npos: "0 < n" using n0 by simp
  define q :: rat where "q = of_int n / of_int c"
  define k where "k = n div c"
  have cpos: "(0::rat) < of_int c" using c1 by simp
  have qpos: "0 < q" using npos cpos by (simp add: q_def)
  define e where "e = floorLog2 q"
  have b: "pow2 e \<le> q \<and> q < pow2 (e + 1)" using floorLog2_bounds [OF qpos] e_def by simp
  have "(of_int n :: rat) < of_int (2 ^ 53)" using n53 by (simp only: of_int_less_iff)
  then have n53r: "(of_int n :: rat) < 2 ^ 53" by simp
  have c1r: "(1::rat) \<le> of_int c" using c1 by simp
  have n0r: "(0::rat) \<le> of_int n" using n0 by simp
  have "of_int n \<le> of_int c * (of_int n :: rat)" using mult_right_mono [OF c1r n0r] by simp
  then have "q \<le> of_int n" using cpos by (simp add: q_def field_simps)
  then have "q < pow2 53" using n53r by (simp add: pow2_def)
  then have "pow2 e < pow2 53" using b by linarith
  then have e52: "e \<le> 52" by (simp add: pow2_less_iff)
  have "(of_int c :: rat) \<le> of_int (2 ^ 64)" using c64 by (simp only: of_int_le_iff)
  then have "(of_int c :: rat) \<le> 2 ^ 64" by simp
  moreover have "(1 :: rat) \<le> of_int n" using npos by simp
  ultimately have "1 / 2 ^ 64 \<le> 1 / (of_int c :: rat) \<and> 1 / of_int c \<le> q" using cpos
    by (simp add: q_def divide_right_mono frac_le)
  then have "1 / 2 ^ 64 \<le> q" by linarith
  then have "pow2 (- 64) \<le> q" by (simp add: pow2_def)
  then have "pow2 (- 64) < pow2 (e + 1)" using b by linarith
  then have e64: "- 65 < e" by (simp add: pow2_less_iff)
  define u where "u = pow2 (e - 52)"
  define m where "m = roundHalfEven (q / u)"
  define r where "r = of_int m * u"
  have upos: "0 < u" using pow2_pos u_def by simp
  have "round64 q = Finite ((if 0 < q then 1 else - 1) * (of_int (roundHalfEven (\<bar>q\<bar> / pow2 (e - 52))) * pow2 (e - 52)))"
    by (rule round64_normal) (use b e52 e64 qpos in auto)
  then have rq: "round64 q = Finite r" using qpos by (simp add: r_def m_def u_def)
  have m0: "0 \<le> m" unfolding m_def by (rule roundHalfEven_ge_int) (use qpos upos in simp)
  have r0: "0 \<le> r" using m0 upos by (simp add: r_def)
  have dm: "c * k + n mod c = n" unfolding k_def by (rule mult_div_mod_eq)
  have md: "0 \<le> n mod c \<and> n mod c < c" using c1 by simp
  have kq: "of_int k \<le> q"
  proof -
    have "c * k \<le> n" using dm md by linarith
    then have "(of_int (c * k) :: rat) \<le> of_int n" by (simp only: of_int_le_iff)
    then show ?thesis using cpos by (simp add: q_def field_simps)
  qed
  have lower: "of_int k \<le> r"
  proof (cases "k \<le> 0")
    case True
    then have "(of_int k :: rat) \<le> 0" by simp
    then show ?thesis using r0 by linarith
  next
    case False
    then have "1 \<le> q" using kq by (smt (verit) of_int_le_iff of_int_1 order_trans)
    then have "pow2 0 < pow2 (e + 1)" using b by (simp add: pow2_def)
    then have e0: "0 \<le> e" by (simp add: pow2_less_iff)
    have uu: "u = 1 / of_int (2 ^ nat (52 - e))"
      using e52 by (cases "e = 52") (simp_all add: u_def pow2_def)
    have "of_int (k * 2 ^ nat (52 - e)) = of_int k / u" by (simp add: uu)
    also have "\<dots> \<le> q / u" using kq upos by (simp add: divide_right_mono)
    finally have "k * 2 ^ nat (52 - e) \<le> m" unfolding m_def by (rule roundHalfEven_ge_int)
    then have "(of_int (k * 2 ^ nat (52 - e)) :: rat) \<le> of_int m" by (simp only: of_int_le_iff)
    then have "of_int (k * 2 ^ nat (52 - e)) * u \<le> of_int m * u"
      using upos by (simp only: mult_le_cancel_right_pos)
    then show ?thesis by (simp add: r_def uu)
  qed
  have upper: "r < of_int k + 1"
  proof -
    have "of_int m \<le> q / u + 1 / 2" unfolding m_def by (rule roundHalfEven_upper)
    then have "of_int m * u \<le> (q / u + 1 / 2) * u" using upos by (simp only: mult_le_cancel_right_pos)
    moreover have "(q / u + 1 / 2) * u = q + u / 2" using upos by (simp add: distrib_right)
    ultimately have r1: "r \<le> q + u / 2" by (simp only: r_def)
    have e52': "e = 52 + (e - 52)" by simp
    have "pow2 e = 2 ^ 52 * u"
      by (subst e52', subst pow2_add) (simp add: u_def pow2_nat)
    then have "2 ^ 52 * u \<le> q" using b by simp
    then have u2: "u / 2 \<le> q / 2 ^ 53" by simp
    have "q / 2 ^ 53 < 1 / of_int c"
      using n53r cpos by (simp add: q_def field_simps)
    then have r2: "r < q + 1 / of_int c" using r1 u2 by linarith
    have "c * (k + 1) = c * k + c" by (simp add: distrib_left)
    then have "n < c * (k + 1)" using dm md by linarith
    then have "n + 1 \<le> c * (k + 1)" by simp
    then have "(of_int (n + 1) :: rat) \<le> of_int (c * (k + 1))" by (simp only: of_int_le_iff)
    then have "q + 1 / of_int c \<le> of_int k + 1" using cpos by (simp add: q_def field_simps)
    then show ?thesis using r2 by linarith
  qed
  have "\<lfloor>r\<rfloor> = k" using lower upper by (simp add: floor_unique)
  then show ?thesis using rq r0 by (auto simp add: q_def k_def)
qed

lemma truncation_bounds:
  "\<bar>of_int (truncation q)\<bar> \<le> \<bar>q\<bar> \<and> \<bar>q\<bar> < \<bar>of_int (truncation q)\<bar> + 1 \<and>
   (0 \<le> q \<longrightarrow> 0 \<le> truncation q) \<and> (q \<le> 0 \<longrightarrow> truncation q \<le> 0)"
proof (cases "0 \<le> q")
  case True
  then have "0 \<le> \<lfloor>q\<rfloor>" by simp
  moreover have "of_int \<lfloor>q\<rfloor> \<le> q" "q < of_int \<lfloor>q\<rfloor> + 1" by linarith+
  ultimately show ?thesis using True by (auto simp add: truncation_def)
next
  case False
  then have "0 \<le> \<lfloor>- q\<rfloor>" by simp
  moreover have "of_int \<lfloor>- q\<rfloor> \<le> - q" "- q < of_int \<lfloor>- q\<rfloor> + 1" by linarith+
  ultimately show ?thesis using False by (auto simp add: truncation_def)
qed

lemma quo_nonneg: "0 \<le> n \<Longrightarrow> 0 < c \<Longrightarrow> quo n c = n div c"
  by (cases "n = 0") (simp_all add: quo_def)

lemma quo_neg: "n < 0 \<Longrightarrow> 0 < c \<Longrightarrow> quo n c = - ((- n) div c)"
  by (simp add: quo_def)

lemma int_div_le_self: "0 \<le> n \<Longrightarrow> 1 \<le> c \<Longrightarrow> n div c \<le> (n::int)"
  using zdiv_mono2 [of n 1 c] by simp

lemma toInt_fdiv_int:
  assumes "\<bar>n\<bar> < 2 ^ 53" and "1 \<le> c" and "c \<le> 2 ^ 64"
  shows "toInt (fdiv (Finite (of_int n)) (of_int c)) = Exact (quo n c)"
proof (cases "0 \<le> n")
  case True
  then have n53: "n < 2 ^ 53" using assms(1) by simp
  obtain r where r: "round64 (of_int n / of_int c) = Finite r" "0 \<le> r" "\<lfloor>r\<rfloor> = n div c"
    using round64_div_floor [OF True n53 assms(2,3)] by blast
  have t: "truncation r = n div c" using r by (simp add: truncation_def)
  have "0 \<le> n div c" using True assms(2) by (simp add: pos_imp_zdiv_nonneg_iff)
  moreover have "n div c \<le> n" using True assms(2) by (rule int_div_le_self)
  ultimately have "- (2 ^ 63) \<le> n div c \<and> n div c < 2 ^ 63" using n53 by simp
  then show ?thesis using r t True assms(2) by (simp add: quo_nonneg)
next
  case False
  define n' where "n' = - n"
  have n'0: "0 \<le> n'" and n'53: "n' < 2 ^ 53" and n'pos: "0 < n'"
    using False assms(1) by (simp_all add: n'_def)
  obtain r where r: "round64 (of_int n' / of_int c) = Finite r" "0 \<le> r" "\<lfloor>r\<rfloor> = n' div c"
    using round64_div_floor [OF n'0 n'53 assms(2,3)] by blast
  have "of_int n / (of_int c :: rat) = - (of_int n' / of_int c)" by (simp add: n'_def)
  then have m: "round64 (of_int n / of_int c) = Finite (- r)"
    using round64_minus [OF r(1)] by simp
  have t: "truncation (- r) = - (n' div c)"
  proof (cases "r = 0")
    case True
    then show ?thesis using r(3) by (simp add: truncation_def)
  next
    case False
    then have "\<not> 0 \<le> - r" using r(2) by simp
    then show ?thesis using r(3) by (simp add: truncation_def)
  qed
  have "0 \<le> n' div c" using n'0 assms(2) by (simp add: pos_imp_zdiv_nonneg_iff)
  moreover have "n' div c \<le> n'" using n'0 assms(2) by (rule int_div_le_self)
  ultimately have "- (2 ^ 63) \<le> - (n' div c) \<and> - (n' div c) < 2 ^ 63" using n'53 by simp
  then show ?thesis using m t False assms(2) by (simp add: quo_neg n'_def)
qed

subsection \<open>Evaluating floors of rational numerals\<close>

lemma floor_rat_numeral:
  "\<lfloor>numeral a / numeral b :: rat\<rfloor> = numeral a div numeral b"
  by (metis floor_divide_of_int_eq of_int_numeral)

lemma floor_rat_minus_numeral:
  "\<lfloor>- (numeral a / numeral b) :: rat\<rfloor> = - numeral a div numeral b"
  by (metis divide_minus_left floor_divide_of_int_eq of_int_neg_numeral of_int_numeral)

lemma ceiling_rat_numeral:
  "\<lceil>numeral a / numeral b :: rat\<rceil> = - (- numeral a div numeral b)"
  by (simp add: ceiling_def floor_rat_minus_numeral)

lemmas rat_eval = floor_rat_numeral floor_rat_minus_numeral ceiling_rat_numeral

section \<open>The report builder\<close>

lemma length_dataRows: "length (dataRows clusterNames i provers) = length provers"
  by (induction provers arbitrary: i) simp_all

lemma nth_dataRows:
  "k < length provers \<Longrightarrow>
     dataRows clusterNames i provers ! k = dataRow clusterNames (i + k) (provers ! k)"
proof (induction provers arbitrary: i k)
  case Nil
  then show ?case by simp
next
  case (Cons p ps)
  show ?case
  proof (cases k)
    case 0
    then show ?thesis by simp
  next
    case (Suc j)
    with Cons.prems have "j < length ps" by simp
    then show ?thesis using Cons.IH [of j "Suc i"] Suc by simp
  qed
qed

lemma dataRow_cells:
  "dataRow clusterNames i prover ! 0 = StringCell (Itoa (int i + 1))"
  "dataRow clusterNames i prover ! 1 = StringCell (index_map clusterNames (Address prover))"
  "dataRow clusterNames i prover ! 2 = StringCell (Address prover)"
  "dataRow clusterNames i prover ! 3 = FloatCell (fst (Float64 (TotalPuzzleCredits prover))) ''0.00''"
  "dataRow clusterNames i prover ! 4 = StringCell (TotalPuzzleCreditsPercentage prover)"
  "dataRow clusterNames i prover ! 5 = FloatCell (fst (Float64 (DailyPuzzleCredits prover))) ''0.00''"
  "dataRow clusterNames i prover ! 6 = StringCell (DailyPuzzleCreditsPercentage prover)"
  "dataRow clusterNames i prover ! 7
     = FloatCell (fdiv (fst (Float64 (NetworkSpeed prover))) 1000000) ''0.00''"
  "dataRow clusterNames i prover ! 8 = StringCell (NetworkSpeedPercentage prover)"
  "dataRow clusterNames i prover ! 9
     = IntCell (toInt (fdiv (fst (Float64 (NetworkSpeed prover))) 15000))"
  "dataRow clusterNames i prover ! 10
     = IntCell (toInt (fdiv (fst (Float64 (NetworkSpeed prover))) 43000))"
  by (simp_all add: dataRow_def split: prod.splits)

text \<open>The label map is read for the label cell of a row and for nothing else.\<close>

lemma dataRow_label_only:
  "dataRow m i p = (dataRow m' i p)[1 := StringCell (index_map m (Address p))]"
  by (simp add: dataRow_def split: prod.splits)

lemma length_dataRow: "length (dataRow clusterNames i prover) = 11"
  by (simp add: dataRow_def split: prod.splits)

lemma decimalDigits_digit: "0 \<le> n \<Longrightarrow> n < 10 \<Longrightarrow> decimalDigits n = [digitChar n]"
  by (subst decimalDigits.simps) simp

text \<open>
  C5.  The report has one data row for each fetched record, in the order of the
  response: row \<open>i\<close> is built from record \<open>i\<close> and nothing else, its rank cell holds the
  decimal numeral of \<open>i + 1\<close> and its address cell the address of record \<open>i\<close>, whatever
  the label map holds.
\<close>

theorem rows_keep_response_order:
  "length (dataRows clusterNames 0 provers) = length provers \<and>
   (\<forall>i < length provers.
      dataRows clusterNames 0 provers ! i = dataRow clusterNames i (provers ! i) \<and>
      dataRows clusterNames 0 provers ! i ! 0 = StringCell (Itoa (int i + 1)) \<and>
      dataRows clusterNames 0 provers ! i ! 2 = StringCell (Address (provers ! i)))"
  by (simp add: length_dataRows nth_dataRows dataRow_cells)

theorem rows_keep_response_order_witness:
  "length (dataRows Map.empty 0 [exampleProver, zeroProver]) = 2 \<and>
   dataRows Map.empty 0 [exampleProver, zeroProver] ! 1 = dataRow Map.empty 1 zeroProver \<and>
   dataRows Map.empty 0 [exampleProver, zeroProver] ! 1 ! 0 = StringCell ''2'' \<and>
   dataRows Map.empty 0 [exampleProver, zeroProver] ! 0 ! 0 = StringCell ''1'' \<and>
   dataRows Map.empty 0 [exampleProver, zeroProver] ! 0 ! 2 = StringCell ''addr1''"
proof -
  have two: "length [exampleProver, zeroProver] = 2" by simp
  have d1: "Itoa 1 = ''1''" and d2: "Itoa 2 = ''2''"
    by (simp_all add: Itoa_def decimalDigits_digit digitChar_def)
  have all: "\<forall>i < length [exampleProver, zeroProver].
      dataRows Map.empty 0 [exampleProver, zeroProver] ! i
        = dataRow Map.empty i ([exampleProver, zeroProver] ! i) \<and>
      dataRows Map.empty 0 [exampleProver, zeroProver] ! i ! 0 = StringCell (Itoa (int i + 1)) \<and>
      dataRows Map.empty 0 [exampleProver, zeroProver] ! i ! 2
        = StringCell (Address ([exampleProver, zeroProver] ! i))"
    and len: "length (dataRows Map.empty 0 [exampleProver, zeroProver])
        = length [exampleProver, zeroProver]"
    using rows_keep_response_order [of Map.empty "[exampleProver, zeroProver]"] by blast+
  have r0: "dataRows Map.empty 0 [exampleProver, zeroProver] ! 0 ! 0 = StringCell (Itoa (int 0 + 1))
      \<and> dataRows Map.empty 0 [exampleProver, zeroProver] ! 0 ! 2
        = StringCell (Address ([exampleProver, zeroProver] ! 0))"
    using all [rule_format, of 0] by simp
  have r1: "dataRows Map.empty 0 [exampleProver, zeroProver] ! 1
        = dataRow Map.empty 1 ([exampleProver, zeroProver] ! 1)
      \<and> dataRows Map.empty 0 [exampleProver, zeroProver] ! 1 ! 0 = StringCell (Itoa (int 1 + 1))"
    using all [rule_format, of 1] by simp
  show ?thesis
    using len r0 r1 d1 d2 by (simp add: exampleProver_def)
qed

text \<open>
  C8.  Indexing the label map never fails: for an address that the map does not hold,
  the label is the empty string, and so is the label cell of the row.
\<close>

theorem absent_address_gives_empty_label:
  "clusterNames (Address prover) = None \<Longrightarrow>
     index_map clusterNames (Address prover) = [] \<and>
     dataRow clusterNames i prover ! 1 = StringCell []"
  by (simp add: index_map_def dataRow_def split: prod.splits)

theorem absent_address_gives_empty_label_witness:
  "[''addr2'' \<mapsto> ''Bob''] (Address exampleProver) = None \<and>
   index_map [''addr2'' \<mapsto> ''Bob''] (Address exampleProver) = [] \<and>
   dataRow [''addr2'' \<mapsto> ''Bob''] 0 exampleProver ! 1 = StringCell []"
proof -
  have absent: "[''addr2'' \<mapsto> ''Bob''] (Address exampleProver) = None"
    by (simp add: exampleProver_def)
  show ?thesis
    using absent absent_address_gives_empty_label [of "[''addr2'' \<mapsto> ''Bob'']" exampleProver 0]
    by simp
qed

section \<open>The label map loader\<close>

lemmas csv_eval = readClusterNames_def csv_Reader_def LF_def CR_def COMMA_def DQUOTE_def

lemma exampleLabels_loaded:
  "readClusterNames [''labels.csv'' \<mapsto> exampleLabels] ''labels.csv'' =
     ([Open ''labels.csv'', ReadRecords ''labels.csv'', Close ''labels.csv''],
      Inr [''addr1'' \<mapsto> ''Alice'', ''addr2'' \<mapsto> ''Bob''])"
  by (simp add: csv_eval exampleLabels_def)

text \<open>
  The loop keeps, for each address, the label of the last record that names it: a later
  record overwrites what an earlier one stored.
\<close>

lemma readLoop_last_wins:
  assumes "readLoop m (map Record (rs @ [r] @ rs')) = Inr m'"
    and "2 \<le> length r"
    and "\<forall>r' \<in> set rs'. length r' < 2 \<or> r' ! 1 \<noteq> r ! 1"
  shows "m' (r ! 1) = Some (r ! 0)"
proof -
  have later: "readLoop m0 (map Record rs') = Inr m' \<Longrightarrow> m0 (r ! 1) = Some (r ! 0)
      \<Longrightarrow> m' (r ! 1) = Some (r ! 0)" for m0
    using assms(3) by (induction rs' arbitrary: m0) (auto split: if_splits)
  show ?thesis
    using assms(1,2)
  proof (induction rs arbitrary: m)
    case Nil
    then show ?case using later [of "m(r ! 1 \<mapsto> r ! 0)"] by simp
  next
    case (Cons a rs)
    then show ?case by (auto split: if_splits)
  qed
qed

text \<open>
  C7.  The loader does not pass over every short row.  In the file
  \<^verbatim>\<open>Alice,addr1\n\<close>\<^verbatim>\<open>Bob\n\<close> the first record fixes two fields for every record, the reader
  returns \<^verbatim>\<open>ErrFieldCount\<close> for the second row, and \<^verbatim>\<open>readClusterNames\<close> returns that error
  and no map, although its loop passes over records of fewer than two fields.
\<close>

theorem short_row_after_full_row_fails:
  "csv_Reader shortRowLabels = [Record [''Alice'', ''addr1''], Failure ErrFieldCount] \<and>
   readClusterNames [''labels.csv'' \<mapsto> shortRowLabels] ''labels.csv'' =
     ([Open ''labels.csv'', ReadRecords ''labels.csv'', Close ''labels.csv''],
      Inl (CsvError ErrFieldCount))"
  by (simp add: csv_eval shortRowLabels_def)

section \<open>The run\<close>

lemmas parse_eval = parseDateTime_def parseLayout_def stdLongYear_def getnum_def isDigit_def
  digitVal_def digitsValue_def guard_def fractionalSecond_def commaOrPeriod_def daysIn_def
  isLeap_def SPACE_def cutspace_def wallSeconds_def daysSinceEpoch_def daysBeforeYear_def
  yearDay_def daysBefore_def unixOfWall_def lookup_def omega_def alpha_def

lemmas json_eval = Unmarshal_def isValidNumber_def validFraction_def validExponent_def
  skipDigits_def isDigit_def setField_def upperASCII_def zeroEnvelope_def zeroProver_def

lemma exampleWorld_sel:
  "Local exampleWorld = UTC"
  "network exampleWorld url p = Response 200 (Body (Wellformed exampleBody))"
  "files exampleWorld = [''labels.csv'' \<mapsto> exampleLabels]"
  "saves exampleWorld name sh = True"
  "now exampleWorld = 1700000000"
  by (simp_all add: exampleWorld_def)

lemma unavailableWorld_sel:
  "Local unavailableWorld = UTC"
  "network unavailableWorld url p = Response 503 (Body Malformed)"
  by (simp_all add: unavailableWorld_def exampleWorld_def)

lemma exampleFlags_sel:
  "start_datetime exampleFlags = ''2023-01-01 00:00:00''"
  "end_datetime exampleFlags = ''2023-01-02 00:00:00''"
  "cluster_file exampleFlags = ''labels.csv''"
  "api_url exampleFlags = ''http://localhost:8088/api/v1/provers/prover_rank_list''"
  by (simp_all add: exampleFlags_def)

lemma example_start: "parseDateTime UTC ''2023-01-01 00:00:00'' = Some 1672531200"
  by (simp add: parse_eval UTC_def)

lemma example_end: "parseDateTime UTC ''2023-01-02 00:00:00'' = Some 1672617600"
  by (simp add: parse_eval UTC_def)

lemma exampleBody_decoded:
  "Unmarshal (Wellformed exampleBody) = Some \<lparr>dataLen = 1, dataBacking = [exampleProver]\<rparr>"
  by (simp add: json_eval exampleBody_def exampleProver_def)

lemma example_fetch:
  "fetchProverRankList (network exampleWorld) url s e
     = ([HttpPost url (payload s e)], Inr [exampleProver])"
  by (simp add: fetchProverRankList_def exampleWorld_sel exampleBody_decoded Data_def)

text \<open>The trace of every run, by the stage that ends it.\<close>

lemma action_cases:
  "action w c =
     (case parseDateTime (Local w) (start_datetime c) of
        None \<Rightarrow> ([], Some StartTimeError)
      | Some s \<Rightarrow>
     (case parseDateTime (Local w) (end_datetime c) of
        None \<Rightarrow> ([], Some EndTimeError)
      | Some e \<Rightarrow>
          (case snd (fetchProverRankList (network w) (api_url c) s e) of
             Inl err \<Rightarrow>
               ([Printed (''Start timestamp: '' @ Itoa s @ [LF]),
                 Printed (''End timestamp: '' @ Itoa e @ [LF])]
                  @ fst (fetchProverRankList (network w) (api_url c) s e),
                Some (FetchError err))
           | Inr provers \<Rightarrow>
               (case snd (readClusterNames (files w) (cluster_file c)) of
                  Inl err \<Rightarrow>
                    ([Printed (''Start timestamp: '' @ Itoa s @ [LF]),
                      Printed (''End timestamp: '' @ Itoa e @ [LF])]
                       @ fst (fetchProverRankList (network w) (api_url c) s e)
                       @ map LabelFile (fst (readClusterNames (files w) (cluster_file c))),
                     Some (ClusterNamesError err))
                | Inr clusterNames \<Rightarrow>
                    ([Printed (''Start timestamp: '' @ Itoa s @ [LF]),
                      Printed (''End timestamp: '' @ Itoa e @ [LF])]
                       @ fst (fetchProverRankList (network w) (api_url c) s e)
                       @ map LabelFile (fst (readClusterNames (files w) (cluster_file c)))
                       @ [SaveFile (outputFileName w) (headerRow # dataRows clusterNames 0 provers)]
                       @ (if saves w (outputFileName w) (headerRow # dataRows clusterNames 0 provers)
                          then [Printed (savedMessage (outputFileName w))] else []),
                     if saves w (outputFileName w) (headerRow # dataRows clusterNames 0 provers)
                     then None else Some SaveError)))))"
  by (auto simp add: action_def Let_def split: option.splits prod.splits sum.splits)

lemma fetch_trace:
  "fst (fetchProverRankList net url s e) = [] \<or>
   fst (fetchProverRankList net url s e) = [HttpPost url (payload s e)]"
  by (simp add: fetchProverRankList_def Let_def
      split: http_outcome.splits body_read.splits option.splits)

lemma fetch_ok_trace:
  "snd (fetchProverRankList net url s e) = Inr provers \<Longrightarrow>
   fst (fetchProverRankList net url s e) = [HttpPost url (payload s e)]"
  by (simp add: fetchProverRankList_def Let_def
      split: http_outcome.splits body_read.splits option.splits if_splits)

text \<open>
  C1, as the program has it.  Whenever the label file is touched, both dates have
  been parsed, the two lines printed, and the fetch has sent its one request, made
  from the URL of the flags and the two parsed instants, and returned a record list.
  The whole run is then fixed: these three events, the events of the loader, and
  either the loader's error and nothing more, or the one save of the sheet built
  from the record list and the loader's map (and the message when the save
  succeeds).  The map enters the sheet through the label cell of a row alone: the
  row made with one map is the row made with any other map, its label cell replaced
  by the label found for the address of the record.
\<close>

theorem label_file_is_read_after_the_fetch:
  assumes "LabelFile ev \<in> set (fst (action w c))"
  shows "\<exists>s e provers.
     parseDateTime (Local w) (start_datetime c) = Some s \<and>
     parseDateTime (Local w) (end_datetime c) = Some e \<and>
     fetchProverRankList (network w) (api_url c) s e
       = ([HttpPost (api_url c) (payload s e)], Inr provers) \<and>
     action w c =
       (case readClusterNames (files w) (cluster_file c) of
          (loaded, Inl err) \<Rightarrow>
            ([Printed (''Start timestamp: '' @ Itoa s @ [LF]),
              Printed (''End timestamp: '' @ Itoa e @ [LF]),
              HttpPost (api_url c) (payload s e)]
               @ map LabelFile loaded,
             Some (ClusterNamesError err))
        | (loaded, Inr clusterNames) \<Rightarrow>
            ([Printed (''Start timestamp: '' @ Itoa s @ [LF]),
              Printed (''End timestamp: '' @ Itoa e @ [LF]),
              HttpPost (api_url c) (payload s e)]
               @ map LabelFile loaded
               @ [SaveFile (outputFileName w) (headerRow # dataRows clusterNames 0 provers)]
               @ (if saves w (outputFileName w) (headerRow # dataRows clusterNames 0 provers)
                  then [Printed (savedMessage (outputFileName w))] else []),
             if saves w (outputFileName w) (headerRow # dataRows clusterNames 0 provers)
             then None else Some SaveError)) \<and>
     (\<forall>m m' i p.
        dataRow m i p = (dataRow m' i p)[1 := StringCell (index_map m (Address p))])"
proof (cases "parseDateTime (Local w) (start_datetime c)")
  case None
  with assms show ?thesis by (simp add: action_cases)
next
  case (Some s)
  note start = this
  show ?thesis
  proof (cases "parseDateTime (Local w) (end_datetime c)")
    case None
    with assms start show ?thesis by (simp add: action_cases)
  next
    case (Some e)
    note end' = this
    show ?thesis
    proof (cases "snd (fetchProverRankList (network w) (api_url c) s e)")
      case (Inl err)
      with assms start end' fetch_trace [of "network w" "api_url c" s e]
      show ?thesis by (auto simp add: action_cases)
    next
      case (Inr provers)
      note sent = fetch_ok_trace [OF Inr]
      have f: "fetchProverRankList (network w) (api_url c) s e
          = ([HttpPost (api_url c) (payload s e)], Inr provers)"
        using Inr sent by (simp add: prod_eq_iff)
      have only: "\<forall>m m' i p.
          dataRow m i p = (dataRow m' i p)[1 := StringCell (index_map m (Address p))]"
        using dataRow_label_only by blast
      have a: "action w c =
       (case readClusterNames (files w) (cluster_file c) of
          (loaded, Inl err) \<Rightarrow>
            ([Printed (''Start timestamp: '' @ Itoa s @ [LF]),
              Printed (''End timestamp: '' @ Itoa e @ [LF]),
              HttpPost (api_url c) (payload s e)]
               @ map LabelFile loaded,
             Some (ClusterNamesError err))
        | (loaded, Inr clusterNames) \<Rightarrow>
            ([Printed (''Start timestamp: '' @ Itoa s @ [LF]),
              Printed (''End timestamp: '' @ Itoa e @ [LF]),
              HttpPost (api_url c) (payload s e)]
               @ map LabelFile loaded
               @ [SaveFile (outputFileName w) (headerRow # dataRows clusterNames 0 provers)]
               @ (if saves w (outputFileName w) (headerRow # dataRows clusterNames 0 provers)
                  then [Printed (savedMessage (outputFileName w))] else []),
             if saves w (outputFileName w) (headerRow # dataRows clusterNames 0 provers)
             then None else Some SaveError))"
        using start end' f
        by (cases "readClusterNames (files w) (cluster_file c)")
          (simp add: action_cases split: sum.splits)
      from start end' f a only show ?thesis by blast
    qed
  qed
qed

theorem label_file_is_read_after_the_fetch_witness:
  "LabelFile (Open ''labels.csv'') \<in> set (fst (action exampleWorld exampleFlags)) \<and>
   take 6 (fst (action exampleWorld exampleFlags)) =
     [Printed (''Start timestamp: 1672531200'' @ [LF]),
      Printed (''End timestamp: 1672617600'' @ [LF]),
      HttpPost (api_url exampleFlags) (payload 1672531200 1672617600),
      LabelFile (Open ''labels.csv''),
      LabelFile (ReadRecords ''labels.csv''),
      LabelFile (Close ''labels.csv'')] \<and>
   fetchProverRankList (network exampleWorld) (api_url exampleFlags) 1672531200 1672617600
     = ([HttpPost (api_url exampleFlags) (payload 1672531200 1672617600)], Inr [exampleProver])"
proof -
  have tr: "take 6 (fst (action exampleWorld exampleFlags)) =
     [Printed (''Start timestamp: '' @ Itoa 1672531200 @ [LF]),
      Printed (''End timestamp: '' @ Itoa 1672617600 @ [LF]),
      HttpPost (api_url exampleFlags) (payload 1672531200 1672617600),
      LabelFile (Open ''labels.csv''),
      LabelFile (ReadRecords ''labels.csv''),
      LabelFile (Close ''labels.csv'')]"
    by (simp add: action_cases exampleWorld_sel exampleFlags_sel example_start example_end
        example_fetch exampleLabels_loaded)
  have "LabelFile (Open ''labels.csv'') \<in> set (take 6 (fst (action exampleWorld exampleFlags)))"
    by (simp only: tr) simp
  then have opened: "LabelFile (Open ''labels.csv'') \<in> set (fst (action exampleWorld exampleFlags))"
    by (rule in_set_takeD)
  have i1: "Itoa 1672531200 = ''1672531200''" and i2: "Itoa 1672617600 = ''1672617600''"
    by (simp_all add: Itoa_def decimalDigits.simps digitChar_def)
  from label_file_is_read_after_the_fetch [OF opened]
  obtain s e provers where
    s: "parseDateTime (Local exampleWorld) (start_datetime exampleFlags) = Some s" and
    e: "parseDateTime (Local exampleWorld) (end_datetime exampleFlags) = Some e" and
    f: "fetchProverRankList (network exampleWorld) (api_url exampleFlags) s e
       = ([HttpPost (api_url exampleFlags) (payload s e)], Inr provers)" and
    a: "action exampleWorld exampleFlags =
       (case readClusterNames (files exampleWorld) (cluster_file exampleFlags) of
          (loaded, Inl err) \<Rightarrow>
            ([Printed (''Start timestamp: '' @ Itoa s @ [LF]),
              Printed (''End timestamp: '' @ Itoa e @ [LF]),
              HttpPost (api_url exampleFlags) (payload s e)]
               @ map LabelFile loaded,
             Some (ClusterNamesError err))
        | (loaded, Inr clusterNames) \<Rightarrow>
            ([Printed (''Start timestamp: '' @ Itoa s @ [LF]),
              Printed (''End timestamp: '' @ Itoa e @ [LF]),
              HttpPost (api_url exampleFlags) (payload s e)]
               @ map LabelFile loaded
               @ [SaveFile (outputFileName exampleWorld)
                    (headerRow # dataRows clusterNames 0 provers)]
               @ (if saves exampleWorld (outputFileName exampleWorld)
                       (headerRow # dataRows clusterNames 0 provers)
                  then [Printed (savedMessage (outputFileName exampleWorld))] else []),
             if saves exampleWorld (outputFileName exampleWorld)
                  (headerRow # dataRows clusterNames 0 provers)
             then None else Some SaveError))"
    by blast
  have se: "s = 1672531200" "e = 1672617600"
    using s e by (simp_all add: exampleWorld_sel exampleFlags_sel example_start example_end)
  have t6: "take 6 (fst (action exampleWorld exampleFlags)) =
     [Printed (''Start timestamp: 1672531200'' @ [LF]),
      Printed (''End timestamp: 1672617600'' @ [LF]),
      HttpPost (api_url exampleFlags) (payload 1672531200 1672617600),
      LabelFile (Open ''labels.csv''),
      LabelFile (ReadRecords ''labels.csv''),
      LabelFile (Close ''labels.csv'')]"
    unfolding a se
    by (simp add: exampleWorld_sel exampleFlags_sel exampleLabels_loaded i1 i2)
  have pr: "provers = [exampleProver]"
    using f by (simp add: se example_fetch)
  from opened t6 f show ?thesis unfolding se pr by simp
qed

text \<open>
  The claim as it is written fails on the example run: the request is the third
  event of the trace and the label file is opened after it, as the fourth.
\<close>

theorem label_file_is_opened_after_the_request:
  "fst (action exampleWorld exampleFlags) ! 2
     = HttpPost (api_url exampleFlags) (payload 1672531200 1672617600) \<and>
   fst (action exampleWorld exampleFlags) ! 3 = LabelFile (Open ''labels.csv'')"
  by (simp add: action_cases exampleWorld_sel exampleFlags_sel example_start example_end
      example_fetch exampleLabels_loaded)

text \<open>Whatever is saved is the whole sheet: the header and one row for each record.\<close>

lemma saved_sheet_is_whole:
  assumes "SaveFile name sh \<in> set (fst (action w c))"
  shows "\<exists>s e provers clusterNames.
     parseDateTime (Local w) (start_datetime c) = Some s \<and>
     parseDateTime (Local w) (end_datetime c) = Some e \<and>
     snd (fetchProverRankList (network w) (api_url c) s e) = Inr provers \<and>
     snd (readClusterNames (files w) (cluster_file c)) = Inr clusterNames \<and>
     name = outputFileName w \<and>
     sh = headerRow # dataRows clusterNames 0 provers \<and>
     length sh = Suc (length provers)"
proof -
  have nf: "SaveFile name sh \<notin> set (fst (fetchProverRankList net url s e))" for net url s e
    using fetch_trace [of net url s e] by auto
  show ?thesis
  proof (cases "parseDateTime (Local w) (start_datetime c)")
    case None
    with assms show ?thesis by (simp add: action_cases)
  next
    case (Some s)
    note start = this
    show ?thesis
    proof (cases "parseDateTime (Local w) (end_datetime c)")
      case None
      with assms start show ?thesis by (simp add: action_cases)
    next
      case (Some e)
      note end' = this
      show ?thesis
      proof (cases "snd (fetchProverRankList (network w) (api_url c) s e)")
        case (Inl err)
        with assms start end' nf show ?thesis by (simp add: action_cases)
      next
        case (Inr provers)
        note fetched = this
        show ?thesis
        proof (cases "snd (readClusterNames (files w) (cluster_file c))")
          case (Inl err)
          with assms start end' fetched nf show ?thesis by (auto simp add: action_cases)
        next
          case (Inr clusterNames)
          with assms start end' fetched nf show ?thesis
            by (auto simp add: action_cases length_dataRows split: if_splits)
        qed
      qed
    qed
  qed
qed

text \<open>
  C4.  When the response to the request of the run has a status other than 200, the
  fetch returns the status error and the run ends there with that error: its trace is
  the two printed lines and the request, so no file is saved (and the label file is
  not even opened).  In any run, a sheet that is saved is the whole sheet.
\<close>

theorem non_200_aborts_before_any_file:
  assumes "parseDateTime (Local w) (start_datetime c) = Some s"
    and "parseDateTime (Local w) (end_datetime c) = Some e"
    and "network w (api_url c) (payload s e) = Response status body"
    and "status \<noteq> 200"
  shows "snd (fetchProverRankList (network w) (api_url c) s e) = Inl (HTTPStatusError status) \<and>
     action w c =
       ([Printed (''Start timestamp: '' @ Itoa s @ [LF]),
         Printed (''End timestamp: '' @ Itoa e @ [LF]),
         HttpPost (api_url c) (payload s e)],
        Some (FetchError (HTTPStatusError status))) \<and>
     list_all (\<lambda>x. \<not> isSaveFile x) (fst (action w c)) \<and>
     (\<forall>w' c' name sh. SaveFile name sh \<in> set (fst (action w' c')) \<longrightarrow>
        (\<exists>s' e' provers clusterNames.
           snd (fetchProverRankList (network w') (api_url c') s' e') = Inr provers \<and>
           sh = headerRow # dataRows clusterNames 0 provers))"
proof -
  have f: "fetchProverRankList (network w) (api_url c) s e
      = ([HttpPost (api_url c) (payload s e)], Inl (HTTPStatusError status))"
    using assms(3,4) by (simp add: fetchProverRankList_def)
  have whole: "\<forall>w' c' name sh. SaveFile name sh \<in> set (fst (action w' c')) \<longrightarrow>
        (\<exists>s' e' provers clusterNames.
           snd (fetchProverRankList (network w') (api_url c') s' e') = Inr provers \<and>
           sh = headerRow # dataRows clusterNames 0 provers)"
    using saved_sheet_is_whole by blast
  show ?thesis
    using assms(1,2) f whole by (simp add: action_cases)
qed

theorem non_200_aborts_before_any_file_witness:
  "parseDateTime (Local unavailableWorld) (start_datetime exampleFlags) = Some 1672531200 \<and>
   parseDateTime (Local unavailableWorld) (end_datetime exampleFlags) = Some 1672617600 \<and>
   network unavailableWorld (api_url exampleFlags) (payload 1672531200 1672617600)
     = Response 503 (Body Malformed) \<and>
   (503 :: int) \<noteq> 200 \<and>
   action unavailableWorld exampleFlags =
     ([Printed (''Start timestamp: '' @ Itoa 1672531200 @ [LF]),
       Printed (''End timestamp: '' @ Itoa 1672617600 @ [LF]),
       HttpPost (api_url exampleFlags) (payload 1672531200 1672617600)],
      Some (FetchError (HTTPStatusError 503))) \<and>
   list_all (\<lambda>x. \<not> isSaveFile x) (fst (action unavailableWorld exampleFlags))"
proof -
  have s: "parseDateTime (Local unavailableWorld) (start_datetime exampleFlags) = Some 1672531200"
    by (simp add: unavailableWorld_sel exampleFlags_sel example_start)
  have e: "parseDateTime (Local unavailableWorld) (end_datetime exampleFlags) = Some 1672617600"
    by (simp add: unavailableWorld_sel exampleFlags_sel example_end)
  have n: "network unavailableWorld (api_url exampleFlags) (payload 1672531200 1672617600)
      = Response 503 (Body Malformed)"
    by (simp add: unavailableWorld_sel)
  have st: "(503 :: int) \<noteq> 200" by simp
  show ?thesis
    using s e n st non_200_aborts_before_any_file [OF s e n st] by blast
qed

section \<open>Numbers in the rows\<close>

lemmas number_eval = Float64_def isValidNumber_def validFraction_def validExponent_def
  skipDigits_def isDigit_def decimalValue_def digitsValue_def digitVal_def exponentValue_def
  pow10_def

lemma Float64_30000: "Float64 ''30000'' = (Finite 30000, None)"
  using round64_of_int [of 30000] by (simp add: number_eval)

lemma Float64_minus_1: "Float64 ''-1'' = (Finite (- 1), None)"
  using round64_of_int [of "- 1"] by (simp add: number_eval)

lemma Float64_1e309: "Float64 ''1e309'' = (PosInf, Some ErrRange)"
  using round64_overflow [of "10 ^ 309"] by (simp add: number_eval pow2_def)

lemma Float64_empty: "Float64 [] = (Finite 0, Some ErrSyntax)"
  by (simp add: Float64_def isValidNumber_def)

lemma speed_in_mega:
  "fdiv (Finite 30000) 1000000 = Finite (1080863910568919 / 36028797018963968)"
  using round64_normal [of "- 6" "3 / 100"] by (simp add: pow2_def roundHalfEven_def rat_eval)

lemma speed_in_mega_formatted:
  "formatFixed2 (1080863910568919 / 36028797018963968) = ''0.03''"
  by (simp add: formatFixed2_def roundHalfAway_def Itoa_def decimalDigits.simps digitChar_def
      rat_eval)

lemma count_by_constant:
  assumes "fst (Float64 n) = Finite (of_int s)" and "\<bar>s\<bar> < 2 ^ 53"
  shows "toInt (fdiv (fst (Float64 n)) 15000) = Exact (quo s 15000)"
    and "toInt (fdiv (fst (Float64 n)) 43000) = Exact (quo s 43000)"
  using assms toInt_fdiv_int [of s 15000] toInt_fdiv_int [of s 43000] by simp_all

text \<open>
  C2.  The body \<^verbatim>\<open>{"data":[{"Address":"addr1","TotalPuzzleCredits":"100.5", ...,
  "NetworkSpeed":"30000", ...}]}\<close>, with every number a JSON string, decodes to one
  record, and the row made from it has rank 1, the speed cell \<open>30000 / 10\<^sup>6\<close> with the
  format \<^verbatim>\<open>0.00\<close>, which shows as \<^verbatim>\<open>0.03\<close>, and the hardware counts 2 and 0.
\<close>

theorem example_response_row:
  "Unmarshal (Wellformed exampleBody) = Some \<lparr>dataLen = 1, dataBacking = [exampleProver]\<rparr> \<and>
   fetchProverRankList (network exampleWorld) url s e
     = ([HttpPost url (payload s e)], Inr [exampleProver]) \<and>
   length (dataRows clusterNames 0 [exampleProver]) = 1 \<and>
   dataRows clusterNames 0 [exampleProver] ! 0 ! 0 = StringCell ''1'' \<and>
   dataRows clusterNames 0 [exampleProver] ! 0 ! 7
     = FloatCell (fdiv (Finite 30000) 1000000) ''0.00'' \<and>
   formatted (dataRows clusterNames 0 [exampleProver] ! 0 ! 7) = Some ''0.03'' \<and>
   dataRows clusterNames 0 [exampleProver] ! 0 ! 9 = IntCell (Exact 2) \<and>
   dataRows clusterNames 0 [exampleProver] ! 0 ! 10 = IntCell (Exact 0)"
proof -
  have speed: "NetworkSpeed exampleProver = ''30000''" by (simp add: exampleProver_def)
  have v: "fst (Float64 (NetworkSpeed exampleProver)) = Finite (of_int 30000)"
    by (simp add: speed Float64_30000)
  have rank: "Itoa (int 0 + 1) = ''1''"
    by (simp add: Itoa_def decimalDigits_digit digitChar_def)
  have a: "toInt (fdiv (fst (Float64 (NetworkSpeed exampleProver))) 15000) = Exact 2"
    using count_by_constant(1) [OF v] by (simp add: quo_def)
  have b: "toInt (fdiv (fst (Float64 (NetworkSpeed exampleProver))) 43000) = Exact 0"
    using count_by_constant(2) [OF v] by (simp add: quo_def)
  have m: "fdiv (fst (Float64 (NetworkSpeed exampleProver))) 1000000
      = fdiv (Finite 30000) 1000000"
    by (simp add: speed Float64_30000)
  show ?thesis
    using rank a b m
    by (simp add: exampleBody_decoded example_fetch dataRow_cells speed_in_mega
        speed_in_mega_formatted del: fdiv.simps)
qed

lemma decimalValue_just_below:
  "decimalValue ''14999.99999999999999999'' = 1499999999999999999999 / 100000000000000000"
  by (simp add: number_eval)

lemma Float64_just_below: "Float64 ''14999.99999999999999999'' = (Finite 15000, None)"
proof -
  have v: "isValidNumber ''14999.99999999999999999''" by (simp add: number_eval)
  have r: "round64 (1499999999999999999999 / 100000000000000000) = Finite 15000"
    using round64_normal [of 13 "1499999999999999999999 / 100000000000000000"]
    by (simp add: pow2_def roundHalfEven_def rat_eval)
  show ?thesis
    by (simp add: Float64_def v decimalValue_just_below r)
qed

lemma truncation_just_below:
  "truncation (decimalValue ''14999.99999999999999999'' / 15000) = 0"
  by (simp add: decimalValue_just_below truncation_def rat_eval)

text \<open>
  C6, as the program has it.  The speed of a record is the \<^verbatim>\<open>float64\<close> nearest to its
  literal (0 when the literal is not a number).  Each hardware count is the
  \<^verbatim>\<open>float64\<close> quotient of that speed by the constant with its fraction discarded,
  whenever that fits an \<^verbatim>\<open>int\<close>; when it does not, or the speed is an infinity, the
  count is left to the implementation.  Nothing is rounded to the nearest integer and
  a negative speed is not refused.  For a speed that is an integer \<open>s\<close> of magnitude
  below \<open>2\<^sup>5\<^sup>3\<close>, the counts are the integer quotients of \<open>s\<close> by 15000 and by 43000
  truncated towards zero; they are never positive for a negative \<open>s\<close>, and zero for \<open>s\<close>
  above \<open>-15000\<close> (above \<open>-43000\<close>).
\<close>

theorem hardware_counts_truncate:
  "(\<forall>q. fdiv (fst (Float64 (NetworkSpeed prover))) 15000 = Finite q \<longrightarrow>
       - (2 ^ 63) \<le> truncation q \<longrightarrow> truncation q < 2 ^ 63 \<longrightarrow>
       dataRow clusterNames i prover ! 9 = IntCell (Exact (truncation q))) \<and>
   (\<forall>q. fdiv (fst (Float64 (NetworkSpeed prover))) 43000 = Finite q \<longrightarrow>
       - (2 ^ 63) \<le> truncation q \<longrightarrow> truncation q < 2 ^ 63 \<longrightarrow>
       dataRow clusterNames i prover ! 10 = IntCell (Exact (truncation q))) \<and>
   (\<forall>s. fst (Float64 (NetworkSpeed prover)) = Finite (of_int s) \<longrightarrow> \<bar>s\<bar> < 2 ^ 53 \<longrightarrow>
       dataRow clusterNames i prover ! 9 = IntCell (Exact (quo s 15000)) \<and>
       dataRow clusterNames i prover ! 10 = IntCell (Exact (quo s 43000)) \<and>
       (s < 0 \<longrightarrow> quo s 15000 \<le> 0 \<and> quo s 43000 \<le> 0) \<and>
       (- 15000 < s \<longrightarrow> s < 0 \<longrightarrow> quo s 15000 = 0) \<and>
       (- 43000 < s \<longrightarrow> s < 0 \<longrightarrow> quo s 43000 = 0)) \<and>
   fst (Float64 (NetworkSpeed prover)) =
     (if isValidNumber (NetworkSpeed prover) then round64 (decimalValue (NetworkSpeed prover))
      else Finite 0) \<and>
   (\<forall>q. fdiv (fst (Float64 (NetworkSpeed prover))) 15000 = Finite q \<longrightarrow>
       \<not> (- (2 ^ 63) \<le> truncation q \<and> truncation q < 2 ^ 63) \<longrightarrow>
       dataRow clusterNames i prover ! 9 = IntCell ImplementationDependent) \<and>
   (\<forall>q. fdiv (fst (Float64 (NetworkSpeed prover))) 43000 = Finite q \<longrightarrow>
       \<not> (- (2 ^ 63) \<le> truncation q \<and> truncation q < 2 ^ 63) \<longrightarrow>
       dataRow clusterNames i prover ! 10 = IntCell ImplementationDependent) \<and>
   (fst (Float64 (NetworkSpeed prover)) = PosInf \<or> fst (Float64 (NetworkSpeed prover)) = NegInf
      \<longrightarrow> dataRow clusterNames i prover ! 9 = IntCell ImplementationDependent \<and>
          dataRow clusterNames i prover ! 10 = IntCell ImplementationDependent)"
proof -
  have neg: "quo s c \<le> 0" if "s < 0" "0 < c" for s c
    using that by (simp add: quo_neg pos_imp_zdiv_nonneg_iff)
  have zero: "quo s c = 0" if "- c < s" "s < 0" for s c
    using that by (simp add: quo_neg div_pos_pos_trivial)
  have f: "fst (Float64 (NetworkSpeed prover)) =
     (if isValidNumber (NetworkSpeed prover) then round64 (decimalValue (NetworkSpeed prover))
      else Finite 0)"
    by (simp add: Float64_def Let_def)
  have inf: "fst (Float64 (NetworkSpeed prover)) = PosInf \<or> fst (Float64 (NetworkSpeed prover)) = NegInf
      \<longrightarrow> dataRow clusterNames i prover ! 9 = IntCell ImplementationDependent \<and>
          dataRow clusterNames i prover ! 10 = IntCell ImplementationDependent"
    by (auto simp add: dataRow_cells)
  have first: "(\<forall>q. fdiv (fst (Float64 (NetworkSpeed prover))) 15000 = Finite q \<longrightarrow>
       - (2 ^ 63) \<le> truncation q \<longrightarrow> truncation q < 2 ^ 63 \<longrightarrow>
       dataRow clusterNames i prover ! 9 = IntCell (Exact (truncation q))) \<and>
   (\<forall>q. fdiv (fst (Float64 (NetworkSpeed prover))) 43000 = Finite q \<longrightarrow>
       - (2 ^ 63) \<le> truncation q \<longrightarrow> truncation q < 2 ^ 63 \<longrightarrow>
       dataRow clusterNames i prover ! 10 = IntCell (Exact (truncation q))) \<and>
   (\<forall>s. fst (Float64 (NetworkSpeed prover)) = Finite (of_int s) \<longrightarrow> \<bar>s\<bar> < 2 ^ 53 \<longrightarrow>
       dataRow clusterNames i prover ! 9 = IntCell (Exact (quo s 15000)) \<and>
       dataRow clusterNames i prover ! 10 = IntCell (Exact (quo s 43000)) \<and>
       (s < 0 \<longrightarrow> quo s 15000 \<le> 0 \<and> quo s 43000 \<le> 0) \<and>
       (- 15000 < s \<longrightarrow> s < 0 \<longrightarrow> quo s 15000 = 0) \<and>
       (- 43000 < s \<longrightarrow> s < 0 \<longrightarrow> quo s 43000 = 0))"
    using count_by_constant [of "NetworkSpeed prover"] neg [of _ 15000] neg [of _ 43000]
      zero [of 15000] zero [of 43000]
    by (simp add: dataRow_cells del: fdiv.simps)
  have out: "(\<forall>q. fdiv (fst (Float64 (NetworkSpeed prover))) 15000 = Finite q \<longrightarrow>
       \<not> (- (2 ^ 63) \<le> truncation q \<and> truncation q < 2 ^ 63) \<longrightarrow>
       dataRow clusterNames i prover ! 9 = IntCell ImplementationDependent) \<and>
   (\<forall>q. fdiv (fst (Float64 (NetworkSpeed prover))) 43000 = Finite q \<longrightarrow>
       \<not> (- (2 ^ 63) \<le> truncation q \<and> truncation q < 2 ^ 63) \<longrightarrow>
       dataRow clusterNames i prover ! 10 = IntCell ImplementationDependent)"
    by (simp add: dataRow_cells del: fdiv.simps)
  from first f out inf show ?thesis by blast
qed

theorem hardware_counts_truncate_witness:
  "fdiv (fst (Float64 (NetworkSpeed exampleProver))) 43000
     = Finite (6284092503307669 / 9007199254740992) \<and>
   truncation (6284092503307669 / 9007199254740992) = 0 \<and>
   dataRow Map.empty 0 exampleProver ! 10 = IntCell (Exact 0) \<and>
   fst (Float64 (NetworkSpeed exampleProver)) = Finite (of_int 30000) \<and>
   \<bar>30000 :: int\<bar> < 2 ^ 53 \<and>
   dataRow Map.empty 0 exampleProver ! 9 = IntCell (Exact (quo 30000 15000)) \<and>
   quo 30000 15000 = 2 \<and>
   fst (Float64 (NetworkSpeed overflowProver)) = Finite (of_int (- 1)) \<and>
   dataRow Map.empty 0 overflowProver ! 9 = IntCell (Exact (quo (- 1) 15000)) \<and>
   quo (- 1) 15000 = 0 \<and>
   fst (Float64 (NetworkSpeed hugeProver)) = PosInf \<and>
   dataRow Map.empty 0 hugeProver ! 9 = IntCell ImplementationDependent \<and>
   dataRow Map.empty 0 hugeProver ! 10 = IntCell ImplementationDependent"
proof -
  have v: "fst (Float64 (NetworkSpeed exampleProver)) = Finite (of_int 30000)"
    by (simp add: exampleProver_def Float64_30000)
  have v': "fst (Float64 (NetworkSpeed overflowProver)) = Finite (of_int (- 1))"
    by (simp add: overflowProver_def Float64_minus_1)
  have v'': "fst (Float64 (NetworkSpeed hugeProver)) = PosInf"
    by (simp add: hugeProver_def Float64_1e309)
  have q: "fdiv (fst (Float64 (NetworkSpeed exampleProver))) 43000
      = Finite (6284092503307669 / 9007199254740992)"
    using round64_normal [of "- 1" "30 / 43"]
    by (simp add: exampleProver_def Float64_30000 pow2_def roundHalfEven_def rat_eval)
  have t: "truncation (6284092503307669 / 9007199254740992) = 0"
    by (simp add: truncation_def rat_eval)
  have b: "\<bar>30000 :: int\<bar> < 2 ^ 53" "\<bar>- 1 :: int\<bar> < 2 ^ 53" by simp_all
  have range: "- (2 ^ 63) \<le> truncation (6284092503307669 / 9007199254740992)"
    "truncation (6284092503307669 / 9007199254740992) < 2 ^ 63"
    by (simp_all add: t)
  note h = hardware_counts_truncate [of exampleProver Map.empty 0]
  note h' = hardware_counts_truncate [of overflowProver Map.empty 0]
  note h'' = hardware_counts_truncate [of hugeProver Map.empty 0]
  have c10: "dataRow Map.empty 0 exampleProver ! 10 = IntCell (Exact 0)"
    using h q range t by (metis (no_types, lifting))
  have c9: "dataRow Map.empty 0 exampleProver ! 9 = IntCell (Exact (quo 30000 15000))"
    using h v b(1) by blast
  have c9': "dataRow Map.empty 0 overflowProver ! 9 = IntCell (Exact (quo (- 1) 15000))"
    using h' v' b(2) by blast
  have huge: "dataRow Map.empty 0 hugeProver ! 9 = IntCell ImplementationDependent \<and>
      dataRow Map.empty 0 hugeProver ! 10 = IntCell ImplementationDependent"
    using h'' v'' by blast
  show ?thesis
    using q t c10 v b(1) c9 v' c9' v'' huge by (simp add: quo_def)
qed

text \<open>
  The claim as it is written fails in three ways.  For the speed \<^verbatim>\<open>-1\<close> the speed is
  negative and the counts are zero, not negative.  For the speed
  \<^verbatim>\<open>14999.99999999999999999\<close> the quotient by 15000 truncated is 0, but the speed
  becomes the \<^verbatim>\<open>float64\<close> 15000 and the count is 1.  For the speed \<^verbatim>\<open>1e309\<close> the speed
  becomes the positive infinity and the counts are whatever the implementation makes of it.
\<close>

theorem counts_differ_from_truncating_division:
  "fst (Float64 (NetworkSpeed overflowProver)) = Finite (- 1) \<and>
   dataRow Map.empty 0 overflowProver ! 9 = IntCell (Exact 0) \<and>
   dataRow Map.empty 0 overflowProver ! 10 = IntCell (Exact 0) \<and>
   NetworkSpeed roundedProver = ''14999.99999999999999999'' \<and>
   decimalValue (NetworkSpeed roundedProver) = 1499999999999999999999 / 100000000000000000 \<and>
   truncation (decimalValue (NetworkSpeed roundedProver) / 15000) = 0 \<and>
   fst (Float64 (NetworkSpeed roundedProver)) = Finite 15000 \<and>
   dataRow Map.empty 0 roundedProver ! 9 = IntCell (Exact 1) \<and>
   NetworkSpeed hugeProver = ''1e309'' \<and>
   fst (Float64 (NetworkSpeed hugeProver)) = PosInf \<and>
   dataRow Map.empty 0 hugeProver ! 9 = IntCell ImplementationDependent \<and>
   dataRow Map.empty 0 hugeProver ! 10 = IntCell ImplementationDependent"
proof -
  have v: "fst (Float64 (NetworkSpeed overflowProver)) = Finite (of_int (- 1))"
    by (simp add: overflowProver_def Float64_minus_1)
  have b: "\<bar>- 1 :: int\<bar> < 2 ^ 53" by simp
  have neg: "fst (Float64 (NetworkSpeed overflowProver)) = Finite (- 1) \<and>
      dataRow Map.empty 0 overflowProver ! 9 = IntCell (Exact 0) \<and>
      dataRow Map.empty 0 overflowProver ! 10 = IntCell (Exact 0)"
    using v count_by_constant [OF v b]
    by (simp add: dataRow_cells quo_def del: fdiv.simps)
  have r: "NetworkSpeed roundedProver = ''14999.99999999999999999''"
    by (simp add: roundedProver_def)
  have rv: "fst (Float64 (NetworkSpeed roundedProver)) = Finite (of_int 15000)"
    by (simp add: r Float64_just_below)
  have rb: "\<bar>15000 :: int\<bar> < 2 ^ 53" by simp
  have rc: "dataRow Map.empty 0 roundedProver ! 9 = IntCell (Exact 1)"
    using count_by_constant(1) [OF rv rb]
    by (simp add: dataRow_cells quo_def del: fdiv.simps)
  have h: "NetworkSpeed hugeProver = ''1e309''" by (simp add: hugeProver_def)
  have hv: "fst (Float64 (NetworkSpeed hugeProver)) = PosInf"
    by (simp add: h Float64_1e309)
  have hc: "dataRow Map.empty 0 hugeProver ! 9 = IntCell ImplementationDependent \<and>
      dataRow Map.empty 0 hugeProver ! 10 = IntCell ImplementationDependent"
    by (simp add: dataRow_cells hv)
  have dv: "decimalValue (NetworkSpeed roundedProver)
      = 1499999999999999999999 / 100000000000000000"
    by (simp only: r decimalValue_just_below)
  have tr: "truncation (decimalValue (NetworkSpeed roundedProver) / 15000) = 0"
    by (simp only: r truncation_just_below)
  have rf: "fst (Float64 (NetworkSpeed roundedProver)) = Finite 15000"
    by (simp add: r Float64_just_below)
  from neg r dv tr rf rc h hv hc show ?thesis by blast
qed

lemma overflowWorld_sel:
  "Local overflowWorld = UTC"
  "network overflowWorld url p = Response 200 (Body (Wellformed overflowBody))"
  "files overflowWorld = [''labels.csv'' \<mapsto> exampleLabels]"
  "saves overflowWorld name sh = True"
  by (simp_all add: overflowWorld_def exampleWorld_def)

lemma overflowBody_decoded:
  "Unmarshal (Wellformed overflowBody) = Some \<lparr>dataLen = 1, dataBacking = [overflowProver]\<rparr>"
  by (simp add: json_eval overflowBody_def overflowProver_def)

lemma overflow_fetch:
  "fetchProverRankList (network overflowWorld) url s e
     = ([HttpPost url (payload s e)], Inr [overflowProver])"
  by (simp add: fetchProverRankList_def overflowWorld_sel overflowBody_decoded Data_def)

text \<open>
  C10.  The three conversions put their value into the row and drop their error: the
  cells hold the first component of \<^verbatim>\<open>Float64()\<close> whatever the second is.  No error of
  a conversion ends the run: once the dates are parsed, the records fetched and the
  label file loaded, the sheet is handed to \<^verbatim>\<open>Save\<close> and the run fails only if the
  save does.
\<close>

theorem conversion_errors_are_discarded:
  "dataRow clusterNames i prover ! 3
     = FloatCell (fst (Float64 (TotalPuzzleCredits prover))) ''0.00'' \<and>
   dataRow clusterNames i prover ! 5
     = FloatCell (fst (Float64 (DailyPuzzleCredits prover))) ''0.00'' \<and>
   dataRow clusterNames i prover ! 7
     = FloatCell (fdiv (fst (Float64 (NetworkSpeed prover))) 1000000) ''0.00'' \<and>
   (\<forall>s e provers names.
      parseDateTime (Local w) (start_datetime c) = Some s \<longrightarrow>
      parseDateTime (Local w) (end_datetime c) = Some e \<longrightarrow>
      snd (fetchProverRankList (network w) (api_url c) s e) = Inr provers \<longrightarrow>
      snd (readClusterNames (files w) (cluster_file c)) = Inr names \<longrightarrow>
        SaveFile (outputFileName w) (headerRow # dataRows names 0 provers)
          \<in> set (fst (action w c)) \<and>
        snd (action w c) =
          (if saves w (outputFileName w) (headerRow # dataRows names 0 provers)
           then None else Some SaveError))"
  by (simp add: dataRow_cells action_cases del: fdiv.simps)

theorem conversion_errors_are_discarded_witness:
  "Float64 (TotalPuzzleCredits overflowProver) = (PosInf, Some ErrRange) \<and>
   Float64 (DailyPuzzleCredits overflowProver) = (Finite 0, Some ErrSyntax) \<and>
   dataRow Map.empty 0 overflowProver ! 3 = FloatCell PosInf ''0.00'' \<and>
   dataRow Map.empty 0 overflowProver ! 5 = FloatCell (Finite 0) ''0.00'' \<and>
   parseDateTime (Local overflowWorld) (start_datetime exampleFlags) = Some 1672531200 \<and>
   parseDateTime (Local overflowWorld) (end_datetime exampleFlags) = Some 1672617600 \<and>
   snd (fetchProverRankList (network overflowWorld) (api_url exampleFlags) 1672531200 1672617600)
     = Inr [overflowProver] \<and>
   snd (readClusterNames (files overflowWorld) (cluster_file exampleFlags))
     = Inr [''addr1'' \<mapsto> ''Alice'', ''addr2'' \<mapsto> ''Bob''] \<and>
   SaveFile (outputFileName overflowWorld)
       (headerRow # dataRows [''addr1'' \<mapsto> ''Alice'', ''addr2'' \<mapsto> ''Bob''] 0 [overflowProver])
     \<in> set (fst (action overflowWorld exampleFlags)) \<and>
   snd (action overflowWorld exampleFlags) = None"
proof -
  have t: "Float64 (TotalPuzzleCredits overflowProver) = (PosInf, Some ErrRange)"
    by (simp add: overflowProver_def Float64_1e309)
  have d: "Float64 (DailyPuzzleCredits overflowProver) = (Finite 0, Some ErrSyntax)"
    by (simp add: overflowProver_def zeroProver_def Float64_empty)
  have s: "parseDateTime (Local overflowWorld) (start_datetime exampleFlags) = Some 1672531200"
    by (simp add: overflowWorld_sel exampleFlags_sel example_start)
  have e: "parseDateTime (Local overflowWorld) (end_datetime exampleFlags) = Some 1672617600"
    by (simp add: overflowWorld_sel exampleFlags_sel example_end)
  have f: "snd (fetchProverRankList (network overflowWorld) (api_url exampleFlags)
      1672531200 1672617600) = Inr [overflowProver]"
    by (simp add: overflow_fetch)
  have l: "snd (readClusterNames (files overflowWorld) (cluster_file exampleFlags))
      = Inr [''addr1'' \<mapsto> ''Alice'', ''addr2'' \<mapsto> ''Bob'']"
    by (simp add: overflowWorld_sel exampleFlags_sel exampleLabels_loaded)
  note h = conversion_errors_are_discarded [of Map.empty 0 overflowProver overflowWorld exampleFlags]
  have cells: "dataRow Map.empty 0 overflowProver ! 3 = FloatCell PosInf ''0.00''"
    "dataRow Map.empty 0 overflowProver ! 5 = FloatCell (Finite 0) ''0.00''"
    using h t d by simp_all
  have run: "SaveFile (outputFileName overflowWorld)
       (headerRow # dataRows [''addr1'' \<mapsto> ''Alice'', ''addr2'' \<mapsto> ''Bob''] 0 [overflowProver])
     \<in> set (fst (action overflowWorld exampleFlags)) \<and>
     snd (action overflowWorld exampleFlags) =
       (if saves overflowWorld (outputFileName overflowWorld)
             (headerRow # dataRows [''addr1'' \<mapsto> ''Alice'', ''addr2'' \<mapsto> ''Bob''] 0 [overflowProver])
        then None else Some SaveError)"
    using h s e f l by blast
  show ?thesis
    using t d cells s e f l run by (simp add: overflowWorld_sel)
qed

section \<open>The decoder\<close>

























section \<open>The time window parser\<close>

subsection \<open>The calendar\<close>












subsection \<open>The chunks of the layout\<close>












subsection \<open>Formatting\<close>








subsection \<open>What the parser takes\<close>











subsection \<open>The round trip\<close>








end
